theory Spec2Isabelle
  imports Main "HOL-Library.Word"
begin

section \<open>Data model\<close>

text \<open>
  The package \<open>null\<close> has one type, \<open>Int8\<close>: a struct of an \<open>int8\<close> and a validity
  flag. Go's \<open>int8\<close>, \<open>int64\<close> and \<open>uint64\<close> are machine words; the signed ones are read
  through \<open>sint\<close>. A \<open>[]byte\<close> and a Go \<open>string\<close> are both lists of bytes, written here as
  lists of \<open>char\<close> (an Isabelle \<open>char\<close> is one byte).
\<close>

type_synonym int8 = "8 word"
type_synonym int64 = "64 word"
type_synonym uint64 = "64 word"
type_synonym bytes = "char list"

record Int8 =
  Int8 :: int8
  Valid :: bool

text \<open>
  Errors are values. \<open>NumError\<close> is strconv's error (the offending text and the cause),
  \<open>SyntaxError\<close> and \<open>UnmarshalTypeError\<close> are those of encoding/json (the latter with its
  fields \<open>Value\<close> and \<open>Type\<close>), and the two \<open>fmt.Errorf\<close> calls of \<open>UnmarshalJSON\<close> are \<open>KindError\<close> (with
  the text that \<open>reflect.TypeOf(v).Name()\<close> returned) and \<open>OverflowError\<close> (with \<open>r\<close>).
  \<open>PhasePanic\<close> stands for the panic of the JSON decoder when its second pass disagrees
  with the scanner; it is a value here so that no branch of the decoder is left out.
\<close>

datatype numerr = ErrSyntax | ErrRange

datatype error =
    SyntaxError
  | UnmarshalTypeError bytes bytes
  | NumError bytes numerr
  | KindError bytes
  | OverflowError int64
  | PhasePanic

section \<open>strconv: FormatInt and ParseInt in base 10\<close>

definition byte :: "char \<Rightarrow> nat" where
  "byte c = of_char c"

definition isDigit :: "char \<Rightarrow> bool" where
  "isDigit c = (byte CHR ''0'' \<le> byte c \<and> byte c \<le> byte CHR ''9'')"

definition digitVal :: "char \<Rightarrow> nat" where
  "digitVal c = byte c - byte CHR ''0''"

definition digitChar :: "nat \<Rightarrow> char" where
  "digitChar d = char_of (byte CHR ''0'' + d)"

text \<open>
  \<open>strconv.FormatInt(i, 10)\<close>: the decimal digits of the magnitude, most significant
  first, after a minus sign when \<open>i\<close> is negative. The magnitude is taken as Go does, in
  \<open>uint64\<close>, so the least \<open>int64\<close> has the magnitude \<open>2 ^ 63\<close>.
\<close>

fun formatBits :: "nat \<Rightarrow> bytes" where
  "formatBits u = (if u < 10 then [digitChar u] else formatBits (u div 10) @ [digitChar (u mod 10)])"

declare formatBits.simps [simp del]

definition FormatInt :: "int64 \<Rightarrow> bytes" where
  "FormatInt i =
     (if sint i < 0 then CHR ''-'' # formatBits (nat (- sint i)) else formatBits (nat (sint i)))"

text \<open>
  \<open>strconv.ParseUint(s, 10, bitSize)\<close>. The loop keeps \<open>n\<close> in a \<open>uint64\<close>: it stops with a
  range error when \<open>n * 10\<close> would overflow (\<open>n \<ge> cutoff\<close>), when adding the digit wraps
  around (\<open>n1 < n\<close>) or when the sum exceeds \<open>maxVal\<close>; a byte that is no decimal digit is a
  syntax error. On a range error the value returned is \<open>maxVal\<close>, on a syntax error 0.
\<close>

definition maxVal :: "nat \<Rightarrow> uint64" where
  "maxVal bitSize = push_bit bitSize 1 - 1"

definition cutoff10 :: uint64 where
  "cutoff10 = (- 1) div 10 + 1"

fun ParseUint_loop :: "nat \<Rightarrow> uint64 \<Rightarrow> bytes \<Rightarrow> uint64 \<times> numerr option" where
  "ParseUint_loop bitSize n [] = (n, None)"
| "ParseUint_loop bitSize n (c # cs) =
     (if \<not> isDigit c then (0, Some ErrSyntax)
      else if cutoff10 \<le> n then (maxVal bitSize, Some ErrRange)
      else let n' = n * 10; n1 = n' + of_nat (digitVal c)
           in if n1 < n' \<or> maxVal bitSize < n1 then (maxVal bitSize, Some ErrRange)
              else ParseUint_loop bitSize n1 cs)"

definition ParseUint :: "bytes \<Rightarrow> nat \<Rightarrow> uint64 \<times> numerr option" where
  "ParseUint s bitSize = (if s = [] then (0, Some ErrSyntax) else ParseUint_loop bitSize 0 s)"

text \<open>
  \<open>strconv.ParseInt(s, 10, bitSize)\<close>: an optional sign, then \<open>ParseUint\<close>. A syntax error
  returns 0; a magnitude out of range returns the nearest bound of the \<open>bitSize\<close>-bit signed
  range together with the range error. The error names the whole input \<open>s\<close>.
\<close>

definition ParseInt :: "bytes \<Rightarrow> nat \<Rightarrow> int64 \<times> error option" where
  "ParseInt s0 bitSize =
     (if s0 = [] then (0, Some (NumError s0 ErrSyntax))
      else
        let neg = (hd s0 = CHR ''-'');
            s = (if hd s0 = CHR ''+'' \<or> hd s0 = CHR ''-'' then tl s0 else s0);
            (un, err) = ParseUint s bitSize
        in if err = Some ErrSyntax then (0, Some (NumError s0 ErrSyntax))
           else
             let cutoff = (push_bit (bitSize - 1) 1 :: uint64)
             in if \<not> neg \<and> cutoff \<le> un then (cutoff - 1, Some (NumError s0 ErrRange))
                else if neg \<and> cutoff < un then (- cutoff, Some (NumError s0 ErrRange))
                else (if neg then - un else un, None))"

section \<open>encoding/json: the scanner\<close>

text \<open>
  \<open>json.Unmarshal\<close> first runs \<open>checkValid\<close>: a state machine that reads the input byte by
  byte, with a stack of the arrays and objects that are open. The states are the step
  functions of encoding/json's scanner and keep their names. The stack's top is the head
  of the list. An error of the scanner is the state \<open>stateError\<close>.
\<close>

datatype step =
    stateBeginValue | stateBeginValueOrEmpty | stateBeginStringOrEmpty | stateBeginString
  | stateEndValue | stateEndTop
  | stateInString | stateInStringEsc | stateInStringEscU | stateInStringEscU1
  | stateInStringEscU12 | stateInStringEscU123
  | stateNeg | state1 | state0 | stateDot | stateDot0 | stateE | stateESign | stateE0
  | stateT | stateTr | stateTru | stateF | stateFa | stateFal | stateFals
  | stateN | stateNu | stateNul
  | stateError

datatype parse = parseObjectKey | parseObjectValue | parseArrayValue

record scanner =
  step :: step
  parseState :: "parse list"
  endTop :: bool

definition isSpace :: "char \<Rightarrow> bool" where
  "isSpace c = (c = CHR '' '' \<or> c = CHR 0x09 \<or> c = CHR 0x0D \<or> c = CHR 0x0A)"

definition isHex :: "char \<Rightarrow> bool" where
  "isHex c = (isDigit c \<or> byte CHR ''a'' \<le> byte c \<and> byte c \<le> byte CHR ''f''
                \<or> byte CHR ''A'' \<le> byte c \<and> byte c \<le> byte CHR ''F'')"

definition maxNestingDepth :: nat where
  "maxNestingDepth = 10000"

definition reset :: scanner where
  "reset = \<lparr>step = stateBeginValue, parseState = [], endTop = False\<rparr>"

definition scanError :: "scanner \<Rightarrow> scanner" where
  "scanError s = s\<lparr>step := stateError\<rparr>"

definition goto :: "step \<Rightarrow> scanner \<Rightarrow> scanner" where
  "goto st s = s\<lparr>step := st\<rparr>"

definition pushParseState :: "scanner \<Rightarrow> parse \<Rightarrow> scanner" where
  "pushParseState s newParseState =
     (let s1 = s\<lparr>parseState := newParseState # parseState s\<rparr>
      in if length (parseState s1) \<le> maxNestingDepth then s1 else scanError s1)"

definition popParseState :: "scanner \<Rightarrow> scanner" where
  "popParseState s =
     (let s1 = s\<lparr>parseState := tl (parseState s)\<rparr>
      in if parseState s1 = [] then s1\<lparr>step := stateEndTop, endTop := True\<rparr>
         else s1\<lparr>step := stateEndValue\<rparr>)"

definition stepEndTop :: "scanner \<Rightarrow> char \<Rightarrow> scanner" where
  "stepEndTop s c = (if \<not> isSpace c then scanError s else s)"

definition stepEndValue :: "scanner \<Rightarrow> char \<Rightarrow> scanner" where
  "stepEndValue s c =
     (case parseState s of
        [] \<Rightarrow> stepEndTop (s\<lparr>step := stateEndTop, endTop := True\<rparr>) c
      | ps # rest \<Rightarrow>
          if isSpace c then goto stateEndValue s
          else (case ps of
              parseObjectKey \<Rightarrow>
                if c = CHR '':'' then goto stateBeginValue (s\<lparr>parseState := parseObjectValue # rest\<rparr>)
                else scanError s
            | parseObjectValue \<Rightarrow>
                if c = CHR '','' then goto stateBeginString (s\<lparr>parseState := parseObjectKey # rest\<rparr>)
                else if c = CHR ''}'' then popParseState s
                else scanError s
            | parseArrayValue \<Rightarrow>
                if c = CHR '','' then goto stateBeginValue s
                else if c = CHR '']'' then popParseState s
                else scanError s))"

definition stepBeginValue :: "scanner \<Rightarrow> char \<Rightarrow> scanner" where
  "stepBeginValue s c =
     (if isSpace c then s
      else if c = CHR ''{'' then pushParseState (goto stateBeginStringOrEmpty s) parseObjectKey
      else if c = CHR ''['' then pushParseState (goto stateBeginValueOrEmpty s) parseArrayValue
      else if c = CHR 0x22 then goto stateInString s
      else if c = CHR ''-'' then goto stateNeg s
      else if c = CHR ''0'' then goto state0 s
      else if c = CHR ''t'' then goto stateT s
      else if c = CHR ''f'' then goto stateF s
      else if c = CHR ''n'' then goto stateN s
      else if byte CHR ''1'' \<le> byte c \<and> byte c \<le> byte CHR ''9'' then goto state1 s
      else scanError s)"

definition stepBeginValueOrEmpty :: "scanner \<Rightarrow> char \<Rightarrow> scanner" where
  "stepBeginValueOrEmpty s c =
     (if isSpace c then s
      else if c = CHR '']'' then stepEndValue s c
      else stepBeginValue s c)"

definition stepBeginString :: "scanner \<Rightarrow> char \<Rightarrow> scanner" where
  "stepBeginString s c =
     (if isSpace c then s
      else if c = CHR 0x22 then goto stateInString s
      else scanError s)"

definition stepBeginStringOrEmpty :: "scanner \<Rightarrow> char \<Rightarrow> scanner" where
  "stepBeginStringOrEmpty s c =
     (if isSpace c then s
      else if c = CHR ''}'' then stepEndValue (s\<lparr>parseState := parseObjectValue # tl (parseState s)\<rparr>) c
      else stepBeginString s c)"

definition stepInString :: "scanner \<Rightarrow> char \<Rightarrow> scanner" where
  "stepInString s c =
     (if c = CHR 0x22 then goto stateEndValue s
      else if c = CHR 0x5C then goto stateInStringEsc s
      else if byte c < 0x20 then scanError s
      else s)"

definition stepInStringEsc :: "scanner \<Rightarrow> char \<Rightarrow> scanner" where
  "stepInStringEsc s c =
     (if c \<in> set [CHR ''b'', CHR ''f'', CHR ''n'', CHR ''r'', CHR ''t'', CHR 0x5C, CHR ''/'', CHR 0x22]
      then goto stateInString s
      else if c = CHR ''u'' then goto stateInStringEscU s
      else scanError s)"

definition stepHex :: "step \<Rightarrow> scanner \<Rightarrow> char \<Rightarrow> scanner" where
  "stepHex next s c = (if isHex c then goto next s else scanError s)"

definition stepExpect :: "char \<Rightarrow> step \<Rightarrow> scanner \<Rightarrow> char \<Rightarrow> scanner" where
  "stepExpect want next s c = (if c = want then goto next s else scanError s)"

definition step0 :: "scanner \<Rightarrow> char \<Rightarrow> scanner" where
  "step0 s c =
     (if c = CHR ''.'' then goto stateDot s
      else if c = CHR ''e'' \<or> c = CHR ''E'' then goto stateE s
      else stepEndValue s c)"

definition step1 :: "scanner \<Rightarrow> char \<Rightarrow> scanner" where
  "step1 s c = (if isDigit c then goto state1 s else step0 s c)"

definition stepNeg :: "scanner \<Rightarrow> char \<Rightarrow> scanner" where
  "stepNeg s c =
     (if c = CHR ''0'' then goto state0 s
      else if byte CHR ''1'' \<le> byte c \<and> byte c \<le> byte CHR ''9'' then goto state1 s
      else scanError s)"

definition stepDot :: "scanner \<Rightarrow> char \<Rightarrow> scanner" where
  "stepDot s c = (if isDigit c then goto stateDot0 s else scanError s)"

definition stepDot0 :: "scanner \<Rightarrow> char \<Rightarrow> scanner" where
  "stepDot0 s c =
     (if isDigit c then s
      else if c = CHR ''e'' \<or> c = CHR ''E'' then goto stateE s
      else stepEndValue s c)"

definition stepESign :: "scanner \<Rightarrow> char \<Rightarrow> scanner" where
  "stepESign s c = (if isDigit c then goto stateE0 s else scanError s)"

definition stepE :: "scanner \<Rightarrow> char \<Rightarrow> scanner" where
  "stepE s c = (if c = CHR ''+'' \<or> c = CHR ''-'' then goto stateESign s else stepESign s c)"

definition stepE0 :: "scanner \<Rightarrow> char \<Rightarrow> scanner" where
  "stepE0 s c = (if isDigit c then s else stepEndValue s c)"

text \<open>One call \<open>s.step(s, c)\<close>: the step function that the scanner currently holds.\<close>

definition scanStep :: "scanner \<Rightarrow> char \<Rightarrow> scanner" where
  "scanStep s c =
     (case step s of
        stateBeginValue \<Rightarrow> stepBeginValue s c
      | stateBeginValueOrEmpty \<Rightarrow> stepBeginValueOrEmpty s c
      | stateBeginStringOrEmpty \<Rightarrow> stepBeginStringOrEmpty s c
      | stateBeginString \<Rightarrow> stepBeginString s c
      | stateEndValue \<Rightarrow> stepEndValue s c
      | stateEndTop \<Rightarrow> stepEndTop s c
      | stateInString \<Rightarrow> stepInString s c
      | stateInStringEsc \<Rightarrow> stepInStringEsc s c
      | stateInStringEscU \<Rightarrow> stepHex stateInStringEscU1 s c
      | stateInStringEscU1 \<Rightarrow> stepHex stateInStringEscU12 s c
      | stateInStringEscU12 \<Rightarrow> stepHex stateInStringEscU123 s c
      | stateInStringEscU123 \<Rightarrow> stepHex stateInString s c
      | stateNeg \<Rightarrow> stepNeg s c
      | state1 \<Rightarrow> step1 s c
      | state0 \<Rightarrow> step0 s c
      | stateDot \<Rightarrow> stepDot s c
      | stateDot0 \<Rightarrow> stepDot0 s c
      | stateE \<Rightarrow> stepE s c
      | stateESign \<Rightarrow> stepESign s c
      | stateE0 \<Rightarrow> stepE0 s c
      | stateT \<Rightarrow> stepExpect CHR ''r'' stateTr s c
      | stateTr \<Rightarrow> stepExpect CHR ''u'' stateTru s c
      | stateTru \<Rightarrow> stepExpect CHR ''e'' stateEndValue s c
      | stateF \<Rightarrow> stepExpect CHR ''a'' stateFa s c
      | stateFa \<Rightarrow> stepExpect CHR ''l'' stateFal s c
      | stateFal \<Rightarrow> stepExpect CHR ''s'' stateFals s c
      | stateFals \<Rightarrow> stepExpect CHR ''e'' stateEndValue s c
      | stateN \<Rightarrow> stepExpect CHR ''u'' stateNu s c
      | stateNu \<Rightarrow> stepExpect CHR ''l'' stateNul s c
      | stateNul \<Rightarrow> stepExpect CHR ''l'' stateEndValue s c
      | stateError \<Rightarrow> s)"

text \<open>
  \<open>checkValid\<close> feeds every byte to the scanner and then calls \<open>eof\<close>, which accepts when
  the top-level value is complete, if need be after one more step on a space.
\<close>

definition eof :: "scanner \<Rightarrow> bool" where
  "eof s = (step s \<noteq> stateError \<and> (endTop s \<or> endTop (scanStep s CHR '' '')))"

definition checkValid :: "bytes \<Rightarrow> error option" where
  "checkValid data = (if eof (foldl scanStep reset data) then None else Some SyntaxError)"

section \<open>Construction, encoding, text decoding, mutation and projection\<close>

definition NewInt8 :: "int8 \<Rightarrow> bool \<Rightarrow> Int8" where
  "NewInt8 i valid = \<lparr>Int8 = i, Valid = valid\<rparr>"

definition Int8From :: "int8 \<Rightarrow> Int8" where
  "Int8From i = NewInt8 i True"

text \<open>A \<open>*int8\<close> is \<open>None\<close> when nil.\<close>

definition Int8FromPtr :: "int8 option \<Rightarrow> Int8" where
  "Int8FromPtr i = (case i of None \<Rightarrow> NewInt8 0 False | Some v \<Rightarrow> NewInt8 v True)"

text \<open>
  Modelled from the spec: \<open>NullBytes\<close> is declared in a sibling file of the package that is
  not part of the sources at hand; the spec calls it the byte representation of the
  literal null token.
\<close>

definition NullBytes :: bytes where
  "NullBytes = ''null''"

definition MarshalJSON :: "Int8 \<Rightarrow> bytes \<times> error option" where
  "MarshalJSON i = (if \<not> Valid i then (NullBytes, None) else (FormatInt (scast (Int8 i)), None))"

definition MarshalText :: "Int8 \<Rightarrow> bytes \<times> error option" where
  "MarshalText i = (if \<not> Valid i then ([], None) else (FormatInt (scast (Int8 i)), None))"

text \<open>
  A method with a pointer receiver takes the receiver's state and returns the new state
  beside its result. A nil slice and an empty slice are both the empty list.
\<close>

definition UnmarshalText :: "Int8 \<Rightarrow> bytes \<Rightarrow> Int8 \<times> error option" where
  "UnmarshalText i text =
     (if text = [] then (i\<lparr>Valid := False\<rparr>, None)
      else
        let (res, err) = ParseInt text 8;
            i1 = i\<lparr>Valid := (err = None)\<rparr>;
            i2 = (if Valid i1 then i1\<lparr>Int8 := ucast res\<rparr> else i1)
        in (i2, err))"

definition SetValid :: "Int8 \<Rightarrow> int8 \<Rightarrow> Int8" where
  "SetValid i n = i\<lparr>Int8 := n, Valid := True\<rparr>"

definition Ptr :: "Int8 \<Rightarrow> int8 option" where
  "Ptr i = (if \<not> Valid i then None else Some (Int8 i))"

definition IsZero :: "Int8 \<Rightarrow> bool" where
  "IsZero i = (\<not> Valid i)"

section \<open>encoding/json: decoding into an empty interface and into an int64\<close>

text \<open>
  A JSON string literal is unquoted: escapes are replaced, \<open>\u\<close> escapes (with UTF-16
  surrogate pairs) are encoded as UTF-8, and bytes that are not well-formed UTF-8 are
  replaced by U+FFFD. Runes are natural numbers.
\<close>

definition inRange :: "nat \<Rightarrow> nat \<Rightarrow> char \<Rightarrow> bool" where
  "inRange lo hi c = (lo \<le> byte c \<and> byte c \<le> hi)"

definition runeError :: bytes where
  "runeError = [CHR 0xEF, CHR 0xBF, CHR 0xBD]"

text \<open>The size of the well-formed UTF-8 sequence at the head of the input, if there is one.\<close>

definition decodeRuneSize :: "bytes \<Rightarrow> nat option" where
  "decodeRuneSize p =
     (case p of
        [] \<Rightarrow> None
      | p0 # t \<Rightarrow>
          let x = byte p0 in
          if x < 0x80 then Some 1
          else if 0xC2 \<le> x \<and> x \<le> 0xDF then
            (case t of b1 # _ \<Rightarrow> if inRange 0x80 0xBF b1 then Some 2 else None | _ \<Rightarrow> None)
          else if 0xE0 \<le> x \<and> x \<le> 0xEF then
            (case t of
               b1 # b2 # _ \<Rightarrow>
                 if inRange (if x = 0xE0 then 0xA0 else 0x80) (if x = 0xED then 0x9F else 0xBF) b1
                    \<and> inRange 0x80 0xBF b2
                 then Some 3 else None
             | _ \<Rightarrow> None)
          else if 0xF0 \<le> x \<and> x \<le> 0xF4 then
            (case t of
               b1 # b2 # b3 # _ \<Rightarrow>
                 if inRange (if x = 0xF0 then 0x90 else 0x80) (if x = 0xF4 then 0x8F else 0xBF) b1
                    \<and> inRange 0x80 0xBF b2 \<and> inRange 0x80 0xBF b3
                 then Some 4 else None
             | _ \<Rightarrow> None)
          else None)"

definition isSurrogate :: "nat \<Rightarrow> bool" where
  "isSurrogate r = (0xD800 \<le> r \<and> r < 0xE000)"

definition encodeRune :: "nat \<Rightarrow> bytes" where
  "encodeRune r =
     (if r \<le> 0x7F then [char_of r]
      else if r \<le> 0x7FF then [char_of (0xC0 + r div 64), char_of (0x80 + r mod 64)]
      else if 0x10FFFF < r \<or> isSurrogate r then runeError
      else if r \<le> 0xFFFF then
        [char_of (0xE0 + r div 4096), char_of (0x80 + r div 64 mod 64), char_of (0x80 + r mod 64)]
      else
        [char_of (0xF0 + r div 262144), char_of (0x80 + r div 4096 mod 64),
         char_of (0x80 + r div 64 mod 64), char_of (0x80 + r mod 64)])"

definition hexVal :: "char \<Rightarrow> nat" where
  "hexVal c =
     (if isDigit c then byte c - byte CHR ''0''
      else if byte CHR ''a'' \<le> byte c \<and> byte c \<le> byte CHR ''f'' then byte c - byte CHR ''a'' + 10
      else byte c - byte CHR ''A'' + 10)"

fun getu4 :: "bytes \<Rightarrow> nat option" where
  "getu4 (b # u # h1 # h2 # h3 # h4 # _) =
     (if b = CHR 0x5C \<and> u = CHR ''u'' \<and> isHex h1 \<and> isHex h2 \<and> isHex h3 \<and> isHex h4
      then Some (((hexVal h1 * 16 + hexVal h2) * 16 + hexVal h3) * 16 + hexVal h4)
      else None)"
| "getu4 _ = None"

definition decodeSurrogates :: "nat \<Rightarrow> nat option \<Rightarrow> nat option" where
  "decodeSurrogates r1 r2 =
     (case r2 of
        None \<Rightarrow> None
      | Some r2 \<Rightarrow>
          if 0xD800 \<le> r1 \<and> r1 < 0xDC00 \<and> 0xDC00 \<le> r2 \<and> r2 < 0xE000
          then Some ((r1 - 0xD800) * 1024 + (r2 - 0xDC00) + 0x10000) else None)"

fun unquoteLoop :: "bytes \<Rightarrow> bytes option" where
  "unquoteLoop [] = Some []"
| "unquoteLoop (c # cs) =
     (if c = CHR 0x5C then
        (case cs of
           [] \<Rightarrow> None
         | e # es \<Rightarrow>
             if e \<in> set [CHR 0x22, CHR 0x5C, CHR ''/'', CHR 0x27] then map_option ((#) e) (unquoteLoop es)
             else if e = CHR ''b'' then map_option ((#) (CHR 0x08)) (unquoteLoop es)
             else if e = CHR ''f'' then map_option ((#) (CHR 0x0C)) (unquoteLoop es)
             else if e = CHR ''n'' then map_option ((#) (CHR 0x0A)) (unquoteLoop es)
             else if e = CHR ''r'' then map_option ((#) (CHR 0x0D)) (unquoteLoop es)
             else if e = CHR ''t'' then map_option ((#) (CHR 0x09)) (unquoteLoop es)
             else if e = CHR ''u'' then
               (case getu4 (c # cs) of
                  None \<Rightarrow> None
                | Some rr \<Rightarrow>
                    if isSurrogate rr then
                      (case decodeSurrogates rr (getu4 (drop 4 es)) of
                         Some dec \<Rightarrow> map_option ((@) (encodeRune dec)) (unquoteLoop (drop 6 (drop 4 es)))
                       | None \<Rightarrow> map_option ((@) runeError) (unquoteLoop (drop 4 es)))
                    else map_option ((@) (encodeRune rr)) (unquoteLoop (drop 4 es)))
             else None)
      else if c = CHR 0x22 \<or> byte c < 0x20 then None
      else if byte c < 0x80 then map_option ((#) c) (unquoteLoop cs)
      else
        (case decodeRuneSize (c # cs) of
           Some sz \<Rightarrow> map_option ((@) (c # take (sz - 1) cs)) (unquoteLoop (drop (sz - 1) cs))
         | None \<Rightarrow> map_option ((@) runeError) (unquoteLoop cs)))"

definition unquote :: "bytes \<Rightarrow> bytes option" where
  "unquote s =
     (if length s < 2 \<or> hd s \<noteq> CHR 0x22 \<or> last s \<noteq> CHR 0x22 then None
      else unquoteLoop (butlast (tl s)))"

text \<open>
  A number literal decoded into an empty interface goes through
  \<open>strconv.ParseFloat(s, 64)\<close>, which fails with a range error when the literal rounds to
  infinity: when its value is at least \<open>2 ^ 1024 - 2 ^ 970\<close>, halfway between the largest
  \<open>float64\<close> and \<open>2 ^ 1024\<close>. The decimal exponent is read as strconv reads it: it stops
  growing once it has reached 10000. The literal has passed the scanner, so it is a JSON
  number.
\<close>

definition readExponent :: "bytes \<Rightarrow> nat" where
  "readExponent ds = foldl (\<lambda>e c. if e < 10000 then e * 10 + digitVal c else e) 0 ds"

definition readDigits :: "bytes \<Rightarrow> nat" where
  "readDigits ds = foldl (\<lambda>n c. n * 10 + digitVal c) 0 ds"

definition float64Overflows :: "bytes \<Rightarrow> bool" where
  "float64Overflows lit =
     (let s1 = (if lit \<noteq> [] \<and> hd lit = CHR ''-'' then tl lit else lit);
          ip = takeWhile isDigit s1;
          r1 = dropWhile isDigit s1;
          hasFrac = (r1 \<noteq> [] \<and> hd r1 = CHR ''.'');
          fp = (if hasFrac then takeWhile isDigit (tl r1) else []);
          r2 = (if hasFrac then dropWhile isDigit (tl r1) else r1);
          r3 = (if r2 \<noteq> [] then tl r2 else []);
          eneg = (r3 \<noteq> [] \<and> hd r3 = CHR ''-'');
          ed = (if r3 \<noteq> [] \<and> (hd r3 = CHR ''-'' \<or> hd r3 = CHR ''+'') then tl r3 else r3);
          e = int (readExponent (takeWhile isDigit ed));
          dp = (if eneg then - e else e) - int (length fp);
          mant = readDigits (ip @ fp);
          limit = (2 :: nat) ^ 1024 - 2 ^ 970
      in if 0 \<le> dp then limit \<le> mant * 10 ^ nat dp else limit * 10 ^ nat (- dp) \<le> mant)"

text \<open>
  The number literals of a valid document, in the order in which the decoder meets them:
  outside string literals, a minus sign or a digit starts a number, which goes on as long
  as the bytes are those of a number.
\<close>

datatype lexmode = Outside | InStr | InStrEsc | InNum

definition isNumberByte :: "char \<Rightarrow> bool" where
  "isNumberByte c = (isDigit c \<or> c \<in> set [CHR ''-'', CHR ''+'', CHR ''.'', CHR ''e'', CHR ''E''])"

fun lexOutside :: "bytes list \<Rightarrow> char \<Rightarrow> lexmode \<times> bytes \<times> bytes list" where
  "lexOutside acc c =
     (if c = CHR 0x22 then (InStr, [], acc)
      else if c = CHR ''-'' \<or> isDigit c then (InNum, [c], acc)
      else (Outside, [], acc))"

fun lexStep :: "lexmode \<times> bytes \<times> bytes list \<Rightarrow> char \<Rightarrow> lexmode \<times> bytes \<times> bytes list" where
  "lexStep (Outside, cur, acc) c = lexOutside acc c"
| "lexStep (InStr, cur, acc) c =
     (if c = CHR 0x5C then (InStrEsc, [], acc)
      else if c = CHR 0x22 then (Outside, [], acc)
      else (InStr, [], acc))"
| "lexStep (InStrEsc, cur, acc) c = (InStr, [], acc)"
| "lexStep (InNum, cur, acc) c =
     (if isNumberByte c then (InNum, cur @ [c], acc) else lexOutside (acc @ [cur]) c)"

definition numberLiterals :: "bytes \<Rightarrow> bytes list" where
  "numberLiterals data =
     (case foldl lexStep (Outside, [], []) data of
        (InNum, cur, acc) \<Rightarrow> acc @ [cur]
      | (_, _, acc) \<Rightarrow> acc)"

text \<open>
  The dynamic value that \<open>json.Unmarshal(data, &v)\<close> puts into \<open>v interface{}\<close>. The code
  looks at its dynamic type only, and at the text of a string; so a \<open>float64\<close>, a
  \<open>[]interface{}\<close> and a \<open>map[string]interface{}\<close> are kept without their content.
\<close>

datatype dyn = DynNil | DynBool bool | DynFloat64 | DynString bytes | DynSlice | DynMap

definition trimSpace :: "bytes \<Rightarrow> bytes" where
  "trimSpace data = rev (dropWhile isSpace (rev (dropWhile isSpace data)))"

text \<open>
  \<open>json.Unmarshal(data, &v)\<close> for \<open>v interface{}\<close>: a syntax error of the scanner; else the
  first number literal of the document that overflows \<open>float64\<close> gives an
  \<open>UnmarshalTypeError\<close>; else the value, whose kind shows in the first byte of the
  document after the white space. A document that has passed the scanner has such a
  byte; were there none, the decoder would panic.
\<close>

definition Unmarshal_interface :: "bytes \<Rightarrow> error + dyn" where
  "Unmarshal_interface data =
     (case checkValid data of
        Some e \<Rightarrow> Inl e
      | None \<Rightarrow>
          (case find float64Overflows (numberLiterals data) of
             Some lit \<Rightarrow> Inl (UnmarshalTypeError (''number '' @ lit) ''float64'')
           | None \<Rightarrow>
               (case trimSpace data of
                  [] \<Rightarrow> Inl PhasePanic
                | c # rest \<Rightarrow>
                    if c = CHR ''{'' then Inr DynMap
                    else if c = CHR ''['' then Inr DynSlice
                    else if c = CHR ''n'' then Inr DynNil
                    else if c = CHR ''t'' \<or> c = CHR ''f'' then Inr (DynBool (c = CHR ''t''))
                    else if c = CHR 0x22 then
                      (case unquote (c # rest) of
                         None \<Rightarrow> Inl PhasePanic
                       | Some str \<Rightarrow> Inr (DynString str))
                    else Inr DynFloat64)))"

text \<open>
  \<open>json.Unmarshal(data, &r)\<close> for \<open>r int64\<close>, given the content of \<open>r\<close> before the call. A
  number literal is parsed by \<open>strconv.ParseInt(item, 10, 64)\<close>; when that fails \<open>r\<close> is left
  as it was and the error is an \<open>UnmarshalTypeError\<close>. A null leaves \<open>r\<close> as it was without
  error, every other kind of value is an \<open>UnmarshalTypeError\<close>.
\<close>

definition Unmarshal_int64 :: "bytes \<Rightarrow> int64 \<Rightarrow> int64 \<times> error option" where
  "Unmarshal_int64 data r =
     (case checkValid data of
        Some e \<Rightarrow> (r, Some e)
      | None \<Rightarrow>
          (case trimSpace data of
             [] \<Rightarrow> (r, Some PhasePanic)
           | c # rest \<Rightarrow>
               if c = CHR ''{'' then (r, Some (UnmarshalTypeError ''object'' ''int64''))
               else if c = CHR ''['' then (r, Some (UnmarshalTypeError ''array'' ''int64''))
               else if c = CHR ''n'' then (r, None)
               else if c = CHR ''t'' \<or> c = CHR ''f'' then (r, Some (UnmarshalTypeError ''bool'' ''int64''))
               else if c = CHR 0x22 then (r, Some (UnmarshalTypeError ''string'' ''int64''))
               else
                 (case ParseInt (c # rest) 64 of
                    (n, None) \<Rightarrow> (n, None)
                  | (n, Some e) \<Rightarrow>
                      (r, Some (UnmarshalTypeError (''number '' @ c # rest) ''int64'')))))"

section \<open>JSON decoding of Int8\<close>

text \<open>
  \<open>reflect.TypeOf(v).Name()\<close> is the name of a defined type and the empty string for every
  other type: \<open>bool\<close>, \<open>float64\<close> and \<open>string\<close> have their names, the slice and the map
  type have none. For a nil interface \<open>reflect.TypeOf\<close> returns nil and \<open>Name\<close> would
  panic; \<open>UnmarshalJSON\<close> never asks for it, and the model leaves it unspecified.
\<close>

fun typeName :: "dyn \<Rightarrow> bytes" where
  "typeName (DynBool b) = ''bool''"
| "typeName DynFloat64 = ''float64''"
| "typeName (DynString s) = ''string''"
| "typeName DynSlice = []"
| "typeName DynMap = []"

text \<open>
  The type switch of \<open>UnmarshalJSON\<close> either returns from the function (with the new
  state of the receiver and the result) or falls through to the code after it, with \<open>r\<close>
  and \<open>err\<close>.
\<close>

datatype flow = Return Int8 "error option" | Fallthrough int64 "error option"

fun typeSwitch :: "Int8 \<Rightarrow> bytes \<Rightarrow> dyn \<Rightarrow> flow" where
  "typeSwitch i data DynFloat64 = (case Unmarshal_int64 data 0 of (r, err) \<Rightarrow> Fallthrough r err)"
| "typeSwitch i data (DynString str) =
     (if length str = 0 then Return (i\<lparr>Valid := False\<rparr>) None
      else case ParseInt str 8 of (r, err) \<Rightarrow> Fallthrough r err)"
| "typeSwitch i data DynNil = Return (i\<lparr>Valid := False\<rparr>) None"
| "typeSwitch i data v = Fallthrough 0 (Some (KindError (typeName v)))"

definition MaxInt8 :: int where
  "MaxInt8 = 127"

definition UnmarshalJSON :: "Int8 \<Rightarrow> bytes \<Rightarrow> Int8 \<times> error option" where
  "UnmarshalJSON i data =
     (if data = NullBytes then (i\<lparr>Valid := False, Int8 := 0\<rparr>, None)
      else
        (case Unmarshal_interface data of
           Inl err \<Rightarrow> (i, Some err)
         | Inr v \<Rightarrow>
             (case typeSwitch i data v of
                Return i1 res \<Rightarrow> (i1, res)
              | Fallthrough r err \<Rightarrow>
                  if MaxInt8 < sint r then (i, Some (OverflowError r))
                  else
                    let i1 = i\<lparr>Int8 := ucast r\<rparr>
                    in (i1\<lparr>Valid := (err = None \<and> Int8 i1 \<noteq> 0)\<rparr>, err))))"

text \<open>The texts of the two errors that \<open>UnmarshalJSON\<close> makes with \<open>fmt.Errorf\<close>.\<close>

definition kindErrorText :: "bytes \<Rightarrow> bytes" where
  "kindErrorText name = ''json: cannot unmarshal '' @ name @ '' into Go value of type null.Int8''"

definition overflowErrorText :: "int64 \<Rightarrow> bytes" where
  "overflowErrorText r = ''json: '' @ FormatInt r @ '' overflows max int8 value''"

section \<open>Database value binding\<close>

text \<open>
  \<open>convert.ConvertAssign\<close> belongs to another package and is a parameter here: given the
  driver value and the current content of the \<open>int8\<close> it is pointed at, it returns the new
  content and its error. It receives a pointer to the field \<open>Int8\<close> only, so it cannot
  reach \<open>Valid\<close>. A nil driver value is \<open>None\<close>.
\<close>

definition Scan :: "('v \<Rightarrow> int8 \<Rightarrow> int8 \<times> 'e option) \<Rightarrow> Int8 \<Rightarrow> 'v option \<Rightarrow> Int8 \<times> 'e option" where
  "Scan ConvertAssign i val =
     (case val of
        None \<Rightarrow> (\<lparr>Int8 = 0, Valid = False\<rparr>, None)
      | Some x \<Rightarrow>
          let i1 = i\<lparr>Valid := True\<rparr>;
              (n, err) = ConvertAssign x (Int8 i1)
          in (i1\<lparr>Int8 := n\<rparr>, err))"

text \<open>A \<open>driver.Value\<close> produced by \<open>Value\<close> is nil or an \<open>int64\<close>.\<close>

definition Value :: "Int8 \<Rightarrow> int64 option \<times> error option" where
  "Value i = (if \<not> Valid i then (None, None) else (Some (scast (Int8 i)), None))"

text \<open>
  \<open>Randomize\<close> calls \<open>nextInt\<close> once, in the branch that is not null; \<open>%\<close> is Go's remainder,
  which truncates towards zero.
\<close>

definition goRem :: "int \<Rightarrow> int \<Rightarrow> int" where
  "goRem a b = sgn a * (\<bar>a\<bar> mod \<bar>b\<bar>)"

definition Randomize :: "Int8 \<Rightarrow> int64 \<Rightarrow> bool \<Rightarrow> Int8" where
  "Randomize i nextInt shouldBeNull =
     (if shouldBeNull then i\<lparr>Int8 := 0, Valid := False\<rparr>
      else i\<lparr>Int8 := word_of_int (goRem (sint nextInt) 127), Valid := True\<rparr>)"

section \<open>Decimal texts\<close>

text \<open>
  The definitions of this section follow the words of the specification, not the code.
  A text is a base-10 signed integer when it is an optional sign followed by at least one
  decimal digit, and \<open>decimalValue\<close> is the integer it denotes. \<open>ParseInt\<close> and \<open>FormatInt\<close>
  are checked against this reading below; it does not go through the \<open>uint64\<close> arithmetic
  of \<open>ParseUint\<close>.
\<close>

definition isDecimal :: "bytes \<Rightarrow> bool" where
  "isDecimal s =
     (let ds = (if s \<noteq> [] \<and> (hd s = CHR ''+'' \<or> hd s = CHR ''-'') then tl s else s)
      in ds \<noteq> [] \<and> list_all isDigit ds)"

definition decimalValue :: "bytes \<Rightarrow> int" where
  "decimalValue s =
     (if s \<noteq> [] \<and> hd s = CHR ''-'' then - int (readDigits (tl s))
      else if s \<noteq> [] \<and> hd s = CHR ''+'' then int (readDigits (tl s))
      else int (readDigits s))"

text \<open>
  The decimal representation of an integer: a decimal text with no plus sign and no
  leading zero, so that zero is written \<open>0\<close> and nothing else.
\<close>

definition isCanonicalDecimal :: "bytes \<Rightarrow> bool" where
  "isCanonicalDecimal s =
     (isDecimal s \<and> hd s \<noteq> CHR ''+''
      \<and> (hd (if hd s = CHR ''-'' then tl s else s) = CHR ''0'' \<longrightarrow> s = ''0''))"

text \<open>The invariant of the data model: an instance that is not valid holds the value 0.\<close>

definition invalidIsZero :: "Int8 \<Rightarrow> bool" where
  "invalidIsZero i = (Valid i \<or> Int8 i = 0)"

section \<open>Properties of ParseInt and FormatInt\<close>

lemma foldl_dec_mono: "a \<le> foldl (\<lambda>n c. n * 10 + digitVal c) a ds"
proof (induction ds arbitrary: a)
  case Nil show ?case by simp
next
  case (Cons c cs)
  have "a \<le> a * 10 + digitVal c" by simp
  also have "\<dots> \<le> foldl (\<lambda>n c. n * 10 + digitVal c) (a * 10 + digitVal c) cs" by (rule Cons.IH)
  finally show ?case by simp
qed

lemma unat_cutoff10: "unat cutoff10 = 1844674407370955162"
  by (simp add: cutoff10_def)

lemma digitVal_le: "isDigit c \<Longrightarrow> digitVal c \<le> 9"
  unfolding isDigit_def digitVal_def byte_def by simp linarith

lemma ParseUint_loop_digits:
  "list_all isDigit ds \<Longrightarrow> unat n \<le> unat (maxVal bs) \<Longrightarrow>
   ParseUint_loop bs n ds =
     (if foldl (\<lambda>n c. n * 10 + digitVal c) (unat n) ds \<le> unat (maxVal bs)
      then (of_nat (foldl (\<lambda>n c. n * 10 + digitVal c) (unat n) ds), None)
      else (maxVal bs, Some ErrRange))"
proof (induction ds arbitrary: n)
  case Nil
  then show ?case by simp
next
  case (Cons c cs)
  let ?f = "\<lambda>n c. n * 10 + digitVal c"
  let ?M = "unat (maxVal bs)"
  have dig: "isDigit c" and rest: "list_all isDigit cs" using Cons.prems(1) by simp_all
  have d9: "digitVal c \<le> 9" using dig by (rule digitVal_le)
  have Mlt: "?M < 2 ^ 64" using unsigned_less [of "maxVal bs"] by simp
  have mono: "unat n * 10 + digitVal c \<le> foldl ?f (unat n * 10 + digitVal c) cs"
    by (rule foldl_dec_mono)
  show ?case
  proof (cases "cutoff10 \<le> n")
    case True
    then have "1844674407370955162 \<le> unat n" by (simp add: word_le_nat_alt unat_cutoff10)
    then have "?M < unat n * 10 + digitVal c" using Mlt by simp
    then have "\<not> foldl ?f (unat n) (c # cs) \<le> ?M" using mono by simp
    then show ?thesis using dig True by simp
  next
    case False
    then have small: "unat n < 1844674407370955162" by (simp add: word_le_nat_alt unat_cutoff10)
    have u10: "unat (n * 10) = unat n * 10" using small by (simp add: unat_word_ariths)
    have ud: "unat (of_nat (digitVal c) :: uint64) = digitVal c"
      using d9 by (simp add: unat_of_nat)
    have u1: "unat (n * 10 + of_nat (digitVal c)) = (unat n * 10 + digitVal c) mod 2 ^ 64"
      unfolding unat_word_ariths(1) [of "n * 10" "of_nat (digitVal c)"] u10 ud by simp
    show ?thesis
    proof (cases "unat n * 10 + digitVal c \<le> ?M")
      case True
      then have nowrap: "unat (n * 10 + of_nat (digitVal c)) = unat n * 10 + digitVal c"
        using u1 Mlt by simp
      have c1: "\<not> n * 10 + of_nat (digitVal c) < n * 10"
        by (simp add: word_less_nat_alt nowrap u10)
      have c2: "\<not> maxVal bs < n * 10 + of_nat (digitVal c)"
        using True by (simp add: word_less_nat_alt nowrap)
      have "unat (n * 10 + of_nat (digitVal c)) \<le> ?M" using True nowrap by simp
      from Cons.IH [OF rest this] show ?thesis
        using dig \<open>\<not> cutoff10 \<le> n\<close> c1 c2 by (simp add: Let_def nowrap)
    next
      case False
      then have big: "\<not> foldl ?f (unat n) (c # cs) \<le> ?M" using mono by simp
      have "n * 10 + of_nat (digitVal c) < n * 10 \<or> maxVal bs < n * 10 + of_nat (digitVal c)"
      proof (cases "unat n * 10 + digitVal c < 2 ^ 64")
        case True
        then have "unat (n * 10 + of_nat (digitVal c)) = unat n * 10 + digitVal c" using u1 by simp
        then show ?thesis using False by (simp add: word_less_nat_alt)
      next
        case False
        then have wrap: "18446744073709551616 \<le> unat n * 10 + digitVal c" by simp
        then have "unat (n * 10 + of_nat (digitVal c)) = unat n * 10 + digitVal c - 18446744073709551616"
          using u1 small d9 by (simp add: mod_if)
        then have "unat (n * 10 + of_nat (digitVal c)) < unat (n * 10)"
          using small d9 wrap u10 by linarith
        then show ?thesis by (simp add: word_less_nat_alt)
      qed
      then show ?thesis using dig \<open>\<not> cutoff10 \<le> n\<close> big by (simp add: Let_def)
    qed
  qed
qed

lemma ParseUint_loop_error:
  "ParseUint_loop bs n ds = (r, Some k) \<Longrightarrow>
   (k = ErrSyntax \<and> r = 0 \<and> \<not> list_all isDigit ds) \<or> (k = ErrRange \<and> r = maxVal bs)"
proof (induction ds arbitrary: n)
  case Nil
  then show ?case by simp
next
  case (Cons c cs)
  show ?case
  proof (cases "isDigit c \<and> \<not> cutoff10 \<le> n \<and>
      \<not> (n * 10 + of_nat (digitVal c) < n * 10 \<or> maxVal bs < n * 10 + of_nat (digitVal c))")
    case True
    then have "ParseUint_loop bs (n * 10 + of_nat (digitVal c)) cs = (r, Some k)"
      using Cons.prems by (simp add: Let_def)
    from Cons.IH [OF this] show ?thesis using True by simp
  next
    case False
    then show ?thesis using Cons.prems by (auto simp: Let_def split: if_splits)
  qed
qed

lemma ParseUint_loop_nondigit:
  "\<not> list_all isDigit ds \<Longrightarrow> \<exists>r k. ParseUint_loop bs n ds = (r, Some k)"
proof (induction ds arbitrary: n)
  case Nil
  then show ?case by simp
next
  case (Cons c cs)
  show ?case
  proof (cases "isDigit c")
    case True
    then have "\<not> list_all isDigit cs" using Cons.prems by simp
    from Cons.IH [OF this] show ?thesis using True by (simp add: Let_def)
  next
    case False
    then show ?thesis by simp
  qed
qed

lemma unat_maxVal8: "unat (maxVal 8) = 255"
  by (simp add: maxVal_def)

lemma unat_maxVal64: "unat (maxVal 64) = 18446744073709551615"
  by (simp add: maxVal_def)

lemma ParseUint_digits:
  assumes "ds \<noteq> []" "list_all isDigit ds"
  shows "ParseUint ds bs =
     (if readDigits ds \<le> unat (maxVal bs) then (of_nat (readDigits ds), None)
      else (maxVal bs, Some ErrRange))"
  using assms ParseUint_loop_digits [of ds 0 bs]
  by (simp add: ParseUint_def readDigits_def)

lemma ParseInt_Cons:
  "ParseInt (h # t) bs =
     (case ParseUint (if h = CHR ''+'' \<or> h = CHR ''-'' then t else h # t) bs of
        (un, err) \<Rightarrow>
          if err = Some ErrSyntax then (0, Some (NumError (h # t) ErrSyntax))
          else if h \<noteq> CHR ''-'' \<and> push_bit (bs - 1) 1 \<le> un
            then (push_bit (bs - 1) 1 - 1, Some (NumError (h # t) ErrRange))
          else if h = CHR ''-'' \<and> push_bit (bs - 1) 1 < un
            then (- push_bit (bs - 1) 1, Some (NumError (h # t) ErrRange))
          else (if h = CHR ''-'' then - un else un, None))"
proof -
  obtain un err where "ParseUint (if h = CHR ''+'' \<or> h = CHR ''-'' then t else h # t) bs = (un, err)"
    by (cases "ParseUint (if h = CHR ''+'' \<or> h = CHR ''-'' then t else h # t) bs")
  then show ?thesis by (auto simp add: ParseInt_def Let_def)
qed

lemma ParseInt_decimal:
  assumes dec: "isDecimal s"
    and c: "unat (push_bit (bs - 1) 1 :: uint64) = c" and cM: "c \<le> unat (maxVal bs)"
    and lo: "- int c \<le> decimalValue s" and hi: "decimalValue s < int c"
  shows "ParseInt s bs = (word_of_int (decimalValue s), None)"
proof -
  have M: "unat (maxVal bs) < 2 ^ 64" using unsigned_less [of "maxVal bs"] by simp
  from dec obtain h t where s: "s = h # t" by (cases s) (auto simp: isDecimal_def)
  show ?thesis
  proof (cases "h = CHR ''-''")
    case True
    then have ds: "t \<noteq> []" "list_all isDigit t" using dec s by (auto simp: isDecimal_def)
    have v: "readDigits t \<le> c" using lo True s by (simp add: decimalValue_def)
    then have vM: "readDigits t \<le> unat (maxVal bs)" using cM by simp
    then have u: "unat (of_nat (readDigits t) :: uint64) = readDigits t"
      using M by (simp add: unat_of_nat)
    have "\<not> (push_bit (bs - 1) 1 :: uint64) < of_nat (readDigits t)"
      using v unfolding word_less_nat_alt u c by simp
    then show ?thesis using True vM unfolding s ParseInt_Cons
      by (simp add: ParseUint_digits [OF ds] decimalValue_def)
  next
    case False
    define ds where "ds = (if h = CHR ''+'' then t else s)"
    have ds: "ds \<noteq> []" "list_all isDigit ds" using dec s False by (auto simp: isDecimal_def ds_def)
    have dv: "decimalValue s = int (readDigits ds)" using s False by (simp add: decimalValue_def ds_def)
    have v: "readDigits ds < c" using hi dv by simp
    then have vM: "readDigits ds \<le> unat (maxVal bs)" using cM by simp
    then have u: "unat (of_nat (readDigits ds) :: uint64) = readDigits ds"
      using M by (simp add: unat_of_nat)
    have "\<not> (push_bit (bs - 1) 1 :: uint64) \<le> of_nat (readDigits ds)"
      using v unfolding word_le_nat_alt u c by simp
    have pu: "ParseUint (if h = CHR ''+'' \<or> h = CHR ''-'' then t else h # t) bs
                = (of_nat (readDigits ds), None)"
      using False s vM ParseUint_digits [OF ds, of bs] by (cases "h = CHR ''+''") (simp_all add: ds_def)
    show ?thesis using False dv \<open>\<not> push_bit (bs - 1) 1 \<le> of_nat (readDigits ds)\<close>
      unfolding s ParseInt_Cons pu by simp
  qed
qed

lemma ParseInt_8_decimal:
  "isDecimal s \<Longrightarrow> - 128 \<le> decimalValue s \<Longrightarrow> decimalValue s \<le> 127 \<Longrightarrow>
   ParseInt s 8 = (word_of_int (decimalValue s), None)"
  by (rule ParseInt_decimal [where c = 128]) (simp_all add: unat_maxVal8)

lemma ParseInt_64_decimal:
  "isDecimal s \<Longrightarrow> - (2 ^ 63) \<le> decimalValue s \<Longrightarrow> decimalValue s < 2 ^ 63 \<Longrightarrow>
   ParseInt s 64 = (word_of_int (decimalValue s), None)"
  by (rule ParseInt_decimal [where c = "2 ^ 63"]) (simp_all add: unat_maxVal64)

text \<open>Every failure of ParseInt is a NumError naming the input; the value is a bound or 0.\<close>

lemma ParseInt_cases:
  assumes c: "unat (push_bit (bs - 1) 1 :: uint64) = c" and cM: "c < unat (maxVal bs)" and c0: "0 < c"
  shows "(isDecimal s \<and> - int c \<le> decimalValue s \<and> decimalValue s < int c
            \<and> ParseInt s bs = (word_of_int (decimalValue s), None))
       \<or> (\<not> (isDecimal s \<and> - int c \<le> decimalValue s \<and> decimalValue s < int c)
            \<and> (ParseInt s bs = (0, Some (NumError s ErrSyntax))
               \<or> ParseInt s bs = (push_bit (bs - 1) 1 - 1, Some (NumError s ErrRange))
               \<or> ParseInt s bs = (- push_bit (bs - 1) 1, Some (NumError s ErrRange))))"
proof (cases "isDecimal s \<and> - int c \<le> decimalValue s \<and> decimalValue s < int c")
  case True
  then show ?thesis using ParseInt_decimal [of s bs c] c cM by simp
next
  case out: False
  have M: "unat (maxVal bs) < 2 ^ 64" using unsigned_less [of "maxVal bs"] by simp
  have cw: "\<not> maxVal bs \<le> (push_bit (bs - 1) 1 :: uint64)"
    using cM unfolding word_le_nat_alt c by simp
  show ?thesis
  proof (cases s)
    case Nil
    then show ?thesis using out by (simp add: ParseInt_def)
  next
    case (Cons h t)
    define ds where "ds = (if h = CHR ''+'' \<or> h = CHR ''-'' then t else s)"
    define neg where "neg = (h = CHR ''-'')"
    have PI: "ParseInt s bs =
        (case ParseUint ds bs of (un, err) \<Rightarrow>
           if err = Some ErrSyntax then (0, Some (NumError s ErrSyntax))
           else if \<not> neg \<and> push_bit (bs - 1) 1 \<le> un then (push_bit (bs - 1) 1 - 1, Some (NumError s ErrRange))
           else if neg \<and> push_bit (bs - 1) 1 < un then (- push_bit (bs - 1) 1, Some (NumError s ErrRange))
           else (if neg then - un else un, None))"
      unfolding Cons ParseInt_Cons ds_def neg_def by simp
    show ?thesis
    proof (cases "ds \<noteq> [] \<and> list_all isDigit ds")
      case False
      have "\<exists>r k. ParseUint ds bs = (r, Some k)"
      proof (cases "ds = []")
        case True then show ?thesis by (simp add: ParseUint_def)
      next
        case False
        with \<open>\<not> (ds \<noteq> [] \<and> list_all isDigit ds)\<close> have "\<not> list_all isDigit ds" by simp
        from ParseUint_loop_nondigit [OF this] show ?thesis using False by (simp add: ParseUint_def)
      qed
      then obtain r k where rk: "ParseUint ds bs = (r, Some k)" by blast
      have "k = ErrSyntax \<or> (k = ErrRange \<and> r = maxVal bs)"
      proof (cases "ds = []")
        case True then show ?thesis using rk by (simp add: ParseUint_def)
      next
        case False
        then have "ParseUint_loop bs 0 ds = (r, Some k)" using rk by (simp add: ParseUint_def)
        from ParseUint_loop_error [OF this] show ?thesis by blast
      qed
      then show ?thesis using out rk PI cw by (cases neg) auto
    next
      case True
      then have ds: "ds \<noteq> []" "list_all isDigit ds" by simp_all
      have dec: "isDecimal s" using True Cons by (auto simp: isDecimal_def ds_def)
      have dv: "decimalValue s = (if neg then - int (readDigits ds) else int (readDigits ds))"
        using Cons by (auto simp: decimalValue_def ds_def neg_def)
      show ?thesis
      proof (cases "readDigits ds \<le> unat (maxVal bs)")
        case False
        then have "ParseUint ds bs = (maxVal bs, Some ErrRange)" by (simp add: ParseUint_digits [OF ds])
        then show ?thesis using out PI cw by (cases neg) auto
      next
        case True
        then have pu: "ParseUint ds bs = (of_nat (readDigits ds), None)" by (simp add: ParseUint_digits [OF ds])
        have u: "unat (of_nat (readDigits ds) :: uint64) = readDigits ds"
          using True M by (simp add: unat_of_nat)
        show ?thesis
        proof (cases neg)
          case True
          then have "c < readDigits ds" using out dec dv c0 by simp
          then have "(push_bit (bs - 1) 1 :: uint64) < of_nat (readDigits ds)"
            unfolding word_less_nat_alt u c by simp
          then show ?thesis using out PI pu True by simp
        next
          case False
          then have "c \<le> readDigits ds" using out dec dv c0 by simp
          then have "(push_bit (bs - 1) 1 :: uint64) \<le> of_nat (readDigits ds)"
            unfolding word_le_nat_alt u c by simp
          then show ?thesis using out PI pu False by simp
        qed
      qed
    qed
  qed
qed

lemma digitChar_props:
  assumes "d < 10"
  shows "isDigit (digitChar d)" and "digitVal (digitChar d) = d"
  using assms by (simp_all add: isDigit_def digitVal_def digitChar_def byte_def)

lemma digitChar_zero:
  assumes "d < 10"
  shows "digitChar d = CHR ''0'' \<longleftrightarrow> d = 0"
proof -
  have "byte (digitChar d) = 48 + d" using assms by (simp add: digitChar_def byte_def)
  moreover have "digitChar d = CHR ''0'' \<longleftrightarrow> byte (digitChar d) = byte CHR ''0''"
    unfolding byte_def by (simp only: of_char_eq_iff)
  ultimately show ?thesis by (simp add: byte_def)
qed

lemma readDigits_snoc: "readDigits (ds @ [c]) = readDigits ds * 10 + digitVal c"
  by (simp add: readDigits_def)

lemma formatBits_props:
  "formatBits u \<noteq> [] \<and> list_all isDigit (formatBits u) \<and> readDigits (formatBits u) = u
   \<and> (hd (formatBits u) = CHR ''0'' \<longleftrightarrow> u = 0)"
proof (induction u rule: formatBits.induct)
  case (1 u)
  show ?case
  proof (cases "u < 10")
    case True
    then show ?thesis
      by (simp add: formatBits.simps [of u] digitChar_props digitChar_zero readDigits_def)
  next
    case False
    then have IH: "formatBits (u div 10) \<noteq> []" "list_all isDigit (formatBits (u div 10))"
      "readDigits (formatBits (u div 10)) = u div 10"
      "hd (formatBits (u div 10)) = CHR ''0'' \<longleftrightarrow> u div 10 = 0"
      using "1.IH" by simp_all
    have m: "u mod 10 < 10" by simp
    have "u div 10 \<noteq> 0" using False by simp
    then show ?thesis using False IH
      by (simp add: formatBits.simps [of u] digitChar_props [OF m] readDigits_snoc)
  qed
qed

section \<open>Decoding the decimal text of an integer\<close>

lemma isDigit_not_misc:
  assumes "isDigit c"
  shows "c \<noteq> CHR ''-''" "c \<noteq> CHR ''+''" "\<not> isSpace c" "c \<noteq> CHR ''{''" "c \<noteq> CHR ''[''"
    "c \<noteq> CHR ''n''" "c \<noteq> CHR ''t''" "c \<noteq> CHR ''f''" "c \<noteq> CHR 0x22" "isNumberByte c"
  using assms by (auto simp: isDigit_def byte_def isSpace_def isNumberByte_def)

lemma FormatInt_decimal: "isDecimal (FormatInt w) \<and> decimalValue (FormatInt w) = sint w"
proof (cases "sint w < 0")
  case True
  then show ?thesis
    using formatBits_props [of "nat (- sint w)"]
    by (simp add: FormatInt_def isDecimal_def decimalValue_def)
next
  case False
  obtain d ds where f: "formatBits (nat (sint w)) = d # ds"
    using formatBits_props [of "nat (sint w)"] by (cases "formatBits (nat (sint w))") auto
  then have "isDigit d" using formatBits_props [of "nat (sint w)"] by simp
  then have "d \<noteq> CHR ''-''" "d \<noteq> CHR ''+''" by (rule isDigit_not_misc)+
  then show ?thesis
    using False f formatBits_props [of "nat (sint w)"]
    by (simp add: FormatInt_def isDecimal_def decimalValue_def)
qed

lemma ParseInt_FormatInt: "ParseInt (FormatInt w) 64 = (w, None)"
proof -
  have "- (2 ^ 63) \<le> sint w" "sint w < 2 ^ 63"
    using sint_ge [of w] sint_lt [of w] by simp_all
  then show ?thesis
    using ParseInt_64_decimal [of "FormatInt w"] FormatInt_decimal [of w] by simp
qed

lemma scan_digits_state1:
  "list_all isDigit ds \<Longrightarrow> step s = state1 \<Longrightarrow> foldl scanStep s ds = s"
proof (induction ds)
  case Nil
  show ?case by simp
next
  case (Cons c cs)
  then have "scanStep s c = s" by (simp add: scanStep_def step1_def goto_def)
  then show ?case using Cons by simp
qed

lemma digit_1_9: "isDigit c \<Longrightarrow> c \<noteq> CHR ''0'' \<Longrightarrow> byte CHR ''1'' \<le> byte c \<and> byte c \<le> byte CHR ''9''"
proof -
  assume d: "isDigit c" and nz: "c \<noteq> CHR ''0''"
  have "byte c \<noteq> byte CHR ''0''" using nz unfolding byte_def by (simp only: of_char_eq_iff) simp
  then show ?thesis using d by (simp add: isDigit_def byte_def)
qed

lemma scan_canonical_digits:
  assumes ne: "ds \<noteq> []" and dig: "list_all isDigit ds" and can: "hd ds = CHR ''0'' \<longrightarrow> ds = ''0''"
    and st: "step s = stateBeginValue \<or> step s = stateNeg"
  shows "foldl scanStep s ds = s\<lparr>step := (if ds = ''0'' then state0 else state1)\<rparr>"
proof -
  from ne obtain d rest where ds: "ds = d # rest" by (cases ds) auto
  have d: "isDigit d" and rest: "list_all isDigit rest" using dig ds by simp_all
  show ?thesis
  proof (cases "d = CHR ''0''")
    case True
    then have "ds = ''0''" using can ds by simp
    then show ?thesis using st
      by (auto simp: scanStep_def stepBeginValue_def stepNeg_def goto_def isSpace_def)
  next
    case False
    have r: "byte CHR ''1'' \<le> byte d \<and> byte d \<le> byte CHR ''9''" using d False by (rule digit_1_9)
    have "scanStep s d = s\<lparr>step := state1\<rparr>"
      using st r False isDigit_not_misc [OF d]
      by (auto simp: scanStep_def stepBeginValue_def stepNeg_def goto_def)
    moreover have "foldl scanStep (s\<lparr>step := state1\<rparr>) rest = s\<lparr>step := state1\<rparr>"
      using rest by (simp add: scan_digits_state1)
    ultimately show ?thesis using ds False by simp
  qed
qed

lemma eof_after_number:
  assumes "step s = state0 \<or> step s = state1" "parseState s = []"
  shows "eof s"
  using assms
  by (auto simp: eof_def scanStep_def step1_def step0_def stepEndValue_def stepEndTop_def
      isDigit_def byte_def isSpace_def)

lemma formatBits_canonical:
  "hd (formatBits u) = CHR ''0'' \<longrightarrow> formatBits u = ''0''"
proof
  assume "hd (formatBits u) = CHR ''0''"
  then have "u = 0" using formatBits_props [of u] by simp
  moreover have "digitChar 0 = CHR ''0''"
    by (simp only: digitChar_def byte_def add.right_neutral char_of_char)
  ultimately show "formatBits u = ''0''" by (simp add: formatBits.simps [of 0])
qed

lemma FormatInt_shape:
  obtains ds where "FormatInt w = ds \<or> FormatInt w = CHR ''-'' # ds"
    "ds \<noteq> []" "list_all isDigit ds" "hd ds = CHR ''0'' \<longrightarrow> ds = ''0''" "readDigits ds < 2 ^ 64"
proof (cases "sint w < 0")
  case True
  have "nat (- sint w) < 2 ^ 64" using sint_ge [of w] by simp
  then show ?thesis
    using that [of "formatBits (nat (- sint w))"] True formatBits_props [of "nat (- sint w)"]
      formatBits_canonical [of "nat (- sint w)"]
    by (simp add: FormatInt_def)
next
  case False
  have "nat (sint w) < 2 ^ 64" using sint_lt [of w] by simp
  then show ?thesis
    using that [of "formatBits (nat (sint w))"] False formatBits_props [of "nat (sint w)"]
      formatBits_canonical [of "nat (sint w)"]
    by (simp add: FormatInt_def)
qed

lemma checkValid_int_literal:
  assumes "lit = ds \<or> lit = CHR ''-'' # ds"
    "ds \<noteq> []" "list_all isDigit ds" "hd ds = CHR ''0'' \<longrightarrow> ds = ''0''"
  shows "checkValid lit = None"
proof -
  have neg: "scanStep reset CHR ''-'' = reset\<lparr>step := stateNeg\<rparr>"
    by (simp add: scanStep_def stepBeginValue_def goto_def reset_def isSpace_def)
  have "foldl scanStep reset lit = reset\<lparr>step := (if ds = ''0'' then state0 else state1)\<rparr>"
  proof (cases "lit = ds")
    case True
    then show ?thesis using scan_canonical_digits [OF assms(2-4), of reset] by (simp add: reset_def)
  next
    case False
    then have "lit = CHR ''-'' # ds" using assms(1) by simp
    then show ?thesis
      using scan_canonical_digits [OF assms(2-4), of "reset\<lparr>step := stateNeg\<rparr>"] neg by simp
  qed
  then have "eof (foldl scanStep reset lit)"
    by (simp add: eof_after_number reset_def)
  then show ?thesis by (simp add: checkValid_def)
qed

lemma lex_number_bytes:
  "list_all isNumberByte ds \<Longrightarrow> foldl lexStep (InNum, cur, acc) ds = (InNum, cur @ ds, acc)"
  by (induction ds arbitrary: cur) simp_all

lemma list_all_digit_number: "list_all isDigit ds \<Longrightarrow> list_all isNumberByte ds"
  by (induction ds) (simp_all add: isDigit_not_misc)

lemma numberLiterals_int_literal:
  assumes "lit = ds \<or> lit = CHR ''-'' # ds" "ds \<noteq> []" "list_all isDigit ds"
  shows "numberLiterals lit = [lit]"
proof -
  from assms(2) obtain d rest where ds: "ds = d # rest" by (cases ds) auto
  have d: "isDigit d" and rest: "list_all isNumberByte rest"
    using assms(3) ds by (simp_all add: list_all_digit_number)
  from assms(1) show ?thesis
  proof
    assume "lit = ds"
    then show ?thesis using ds d rest isDigit_not_misc [OF d]
      by (simp add: numberLiterals_def lex_number_bytes)
  next
    assume "lit = CHR ''-'' # ds"
    then show ?thesis using ds d rest isDigit_not_misc [OF d]
      by (simp add: numberLiterals_def lex_number_bytes)
  qed
qed

lemma float64Overflows_int_literal:
  assumes "lit = ds \<or> lit = CHR ''-'' # ds" "ds \<noteq> []" "list_all isDigit ds"
    "readDigits ds < 2 ^ 64"
  shows "\<not> float64Overflows lit"
proof -
  have tw: "takeWhile isDigit ds = ds" "dropWhile isDigit ds = []"
    using assms(3) by (simp_all add: list_all_iff)
  have hd: "hd ds \<noteq> CHR ''-''"
    using assms(2,3) isDigit_not_misc(1) [of "hd ds"] by (cases ds) auto
  have s1: "(if lit \<noteq> [] \<and> hd lit = CHR ''-'' then tl lit else lit) = ds"
    using assms(1,2) hd by auto
  have "(2::nat) ^ 64 \<le> 2 ^ 1024 - 2 ^ 970" by simp
  then have "\<not> (2::nat) ^ 1024 - 2 ^ 970 \<le> readDigits ds" using assms(4) by linarith
  then show ?thesis
    unfolding float64Overflows_def s1 by (simp add: tw Let_def readExponent_def)
qed

lemma trimSpace_id:
  assumes "s \<noteq> []" "\<not> isSpace (hd s)" "\<not> isSpace (last s)"
  shows "trimSpace s = s"
proof -
  have a: "dropWhile isSpace s = s" using assms(1,2) by (cases s) auto
  have "rev s \<noteq> []" "\<not> isSpace (hd (rev s))" using assms(1,3) by (simp_all add: hd_rev)
  then have "dropWhile isSpace (rev s) = rev s" by (cases "rev s") auto
  then show ?thesis by (simp add: trimSpace_def a)
qed

lemma trimSpace_int_literal:
  assumes "lit = ds \<or> lit = CHR ''-'' # ds" "ds \<noteq> []" "list_all isDigit ds"
  shows "trimSpace lit = lit"
proof (rule trimSpace_id)
  show "lit \<noteq> []" using assms by auto
  have "isDigit (hd ds)" "isDigit (last ds)" using assms(2,3) by (auto simp: list_all_iff)
  then have "\<not> isSpace (hd ds)" "\<not> isSpace (last ds)" by (simp_all add: isDigit_not_misc)
  then show "\<not> isSpace (hd lit)" "\<not> isSpace (last lit)"
    using assms(1,2) by (auto simp: isSpace_def)
qed

lemma hd_int_literal:
  assumes "lit = ds \<or> lit = CHR ''-'' # ds" "ds \<noteq> []" "list_all isDigit ds"
  shows "hd lit \<notin> set [CHR ''{'', CHR ''['', CHR ''n'', CHR ''t'', CHR ''f'', CHR 0x22]"
proof -
  have "isDigit (hd ds)" using assms(2,3) by (auto simp: list_all_iff)
  from isDigit_not_misc [OF this] show ?thesis using assms(1) by auto
qed

lemma Unmarshal_interface_int_literal:
  assumes "lit = ds \<or> lit = CHR ''-'' # ds" "ds \<noteq> []" "list_all isDigit ds"
    "hd ds = CHR ''0'' \<longrightarrow> ds = ''0''" "readDigits ds < 2 ^ 64"
  shows "Unmarshal_interface lit = Inr DynFloat64"
proof -
  obtain c rest where l: "lit = c # rest" using assms(1,2) by (cases lit) auto
  have "find float64Overflows (numberLiterals lit) = None"
    using numberLiterals_int_literal [OF assms(1-3)] float64Overflows_int_literal [OF assms(1-3,5)]
    by simp
  moreover have "trimSpace lit = c # rest"
    using trimSpace_int_literal [OF assms(1-3)] l by simp
  moreover have "c \<notin> set [CHR ''{'', CHR ''['', CHR ''n'', CHR ''t'', CHR ''f'', CHR 0x22]"
    using hd_int_literal [OF assms(1-3)] l by simp
  ultimately show ?thesis
    using checkValid_int_literal [OF assms(1-4)] by (simp add: Unmarshal_interface_def)
qed

lemma Unmarshal_int64_int_literal:
  assumes "lit = ds \<or> lit = CHR ''-'' # ds" "ds \<noteq> []" "list_all isDigit ds"
    "hd ds = CHR ''0'' \<longrightarrow> ds = ''0''"
  shows "Unmarshal_int64 lit r =
     (case ParseInt lit 64 of (n, None) \<Rightarrow> (n, None)
      | (n, Some e) \<Rightarrow> (r, Some (UnmarshalTypeError (''number '' @ lit) ''int64'')))"
proof -
  obtain c rest where l: "lit = c # rest" using assms(1,2) by (cases lit) auto
  have "trimSpace lit = c # rest"
    using trimSpace_int_literal [OF assms(1-3)] l by simp
  moreover have "c \<notin> set [CHR ''{'', CHR ''['', CHR ''n'', CHR ''t'', CHR ''f'', CHR 0x22]"
    using hd_int_literal [OF assms(1-3)] l by simp
  ultimately show ?thesis
    using checkValid_int_literal [OF assms(1-4)]
    by (simp add: Unmarshal_int64_def l split: prod.splits option.splits)
qed

lemma FormatInt_not_null: "FormatInt w \<noteq> NullBytes"
proof -
  obtain ds where "FormatInt w = ds \<or> FormatInt w = CHR ''-'' # ds" "ds \<noteq> []" "list_all isDigit ds"
    by (rule FormatInt_shape)
  from hd_int_literal [OF this] show ?thesis by (auto simp: NullBytes_def)
qed

text \<open>Decoding the decimal text of any 64-bit integer: what UnmarshalJSON does with it.\<close>

lemma UnmarshalJSON_FormatInt:
  "UnmarshalJSON i (FormatInt w) =
     (if 127 < sint w then (i, Some (OverflowError w))
      else (\<lparr>Int8 = ucast w, Valid = ((ucast w :: int8) \<noteq> 0)\<rparr>, None))"
proof -
  obtain ds where sh: "FormatInt w = ds \<or> FormatInt w = CHR ''-'' # ds" "ds \<noteq> []"
    "list_all isDigit ds" "hd ds = CHR ''0'' \<longrightarrow> ds = ''0''" "readDigits ds < 2 ^ 64"
    by (rule FormatInt_shape)
  have a: "Unmarshal_interface (FormatInt w) = Inr DynFloat64"
    by (rule Unmarshal_interface_int_literal [OF sh])
  have b: "Unmarshal_int64 (FormatInt w) 0 = (w, None)"
    by (simp add: Unmarshal_int64_int_literal [OF sh(1-4)] ParseInt_FormatInt)
  show ?thesis
    by (cases i) (simp add: UnmarshalJSON_def FormatInt_not_null a b MaxInt8_def)
qed

section \<open>Evaluating the decoder on small documents\<close>

lemmas scan_defs = checkValid_def eof_def scanStep_def stepBeginValue_def stepBeginValueOrEmpty_def
  stepBeginString_def stepBeginStringOrEmpty_def stepEndValue_def stepEndTop_def stepInString_def
  stepInStringEsc_def stepHex_def stepExpect_def step0_def step1_def stepNeg_def stepDot_def
  stepDot0_def stepE_def stepESign_def stepE0_def reset_def goto_def scanError_def
  pushParseState_def popParseState_def maxNestingDepth_def isSpace_def isDigit_def isHex_def byte_def

lemma Unmarshal_interface_empty_array: "Unmarshal_interface ''[]'' = Inr DynSlice"
  by (simp add: Unmarshal_interface_def scan_defs numberLiterals_def trimSpace_def)

lemma Unmarshal_interface_empty_object: "Unmarshal_interface ''{}'' = Inr DynMap"
  by (simp add: Unmarshal_interface_def scan_defs numberLiterals_def trimSpace_def)

lemma Unmarshal_interface_true: "Unmarshal_interface ''true'' = Inr (DynBool True)"
  by (simp add: Unmarshal_interface_def scan_defs numberLiterals_def trimSpace_def)

lemma Unmarshal_interface_empty_string: "Unmarshal_interface [CHR 0x22, CHR 0x22] = Inr (DynString [])"
  by (simp add: Unmarshal_interface_def scan_defs numberLiterals_def trimSpace_def unquote_def)

section \<open>Widening and narrowing between int8 and int64\<close>

lemma sint_widen: "sint (scast (v :: int8) :: int64) = sint v"
  by (rule sint_up_scast) (simp add: is_up)

lemma narrow_widen: "(ucast (scast (v :: int8) :: int64) :: int8) = v"
  by (rule bit_word_eqI) (simp add: bit_simps)

lemma int8_sint_le: "sint (v :: int8) \<le> 127"
  using sint_lt [of v] by simp

lemma FormatInt_m128: "FormatInt (- 128) = ''-128''"
  by code_simp

lemma FormatInt_42: "FormatInt 42 = ''42''"
  by code_simp

lemma FormatInt_0: "FormatInt 0 = ''0''"
  by code_simp

lemma FormatInt_128: "FormatInt 128 = ''128''"
  by code_simp

lemma FormatInt_m129: "FormatInt (- 129) = ''-129''"
  by code_simp

lemma FormatInt_m256: "FormatInt (- 256) = ''-256''"
  by code_simp

lemma UnmarshalJSON_0:
  "UnmarshalJSON \<lparr>Int8 = 0, Valid = False\<rparr> ''0'' = (\<lparr>Int8 = 0, Valid = False\<rparr>, None)"
  using UnmarshalJSON_FormatInt [of "\<lparr>Int8 = 0, Valid = False\<rparr>" 0] by (simp add: FormatInt_0)

lemma ParseInt_abc: "ParseInt ''abc'' 8 = (0, Some (NumError ''abc'' ErrSyntax))"
  by code_simp

lemma ParseInt_128: "ParseInt ''128'' 8 = (127, Some (NumError ''128'' ErrRange))"
  by code_simp

section \<open>The eight-bit parse, the canonical text and the invariant\<close>

lemma narrow_of_int: "(ucast (word_of_int x :: int64) :: int8) = word_of_int x"
  by (rule bit_word_eqI) (auto simp: bit_simps)

lemma ParseInt_8_cases:
  "(isDecimal s \<and> - 128 \<le> decimalValue s \<and> decimalValue s \<le> 127
      \<and> ParseInt s 8 = (word_of_int (decimalValue s), None))
   \<or> (\<not> (isDecimal s \<and> - 128 \<le> decimalValue s \<and> decimalValue s \<le> 127)
      \<and> (ParseInt s 8 = (0, Some (NumError s ErrSyntax))
         \<or> ParseInt s 8 = (127, Some (NumError s ErrRange))
         \<or> ParseInt s 8 = (- 128, Some (NumError s ErrRange))))"
proof -
  have "decimalValue s < 128 \<longleftrightarrow> decimalValue s \<le> 127" by arith
  then show ?thesis using ParseInt_cases [of 8 128 s] by (simp add: unat_maxVal8)
qed

lemma ParseInt_8_le: "sint (fst (ParseInt s 8)) \<le> 127"
proof -
  have "- 128 \<le> decimalValue s \<Longrightarrow> decimalValue s \<le> 127 \<Longrightarrow>
        sint (word_of_int (decimalValue s) :: int64) \<le> 127"
    by (simp add: sint_sbintrunc' signed_take_bit_int_eq_self)
  then show ?thesis using ParseInt_8_cases [of s] by auto
qed

lemma FormatInt_canonical: "isCanonicalDecimal (FormatInt w)"
proof (cases "sint w < 0")
  case True
  then have "nat (- sint w) \<noteq> 0" by simp
  then have "hd (formatBits (nat (- sint w))) \<noteq> CHR ''0''"
    using formatBits_props [of "nat (- sint w)"] by simp
  then show ?thesis
    using FormatInt_decimal [of w] True by (simp add: isCanonicalDecimal_def FormatInt_def)
next
  case False
  have ne: "formatBits (nat (sint w)) \<noteq> []" and dig: "list_all isDigit (formatBits (nat (sint w)))"
    using formatBits_props [of "nat (sint w)"] by simp_all
  then have "isDigit (hd (formatBits (nat (sint w))))" by (auto simp: list_all_iff)
  then have "hd (formatBits (nat (sint w))) \<noteq> CHR ''-''" "hd (formatBits (nat (sint w))) \<noteq> CHR ''+''"
    by (rule isDigit_not_misc)+
  then show ?thesis
    using FormatInt_decimal [of w] False formatBits_canonical [of "nat (sint w)"]
    by (simp add: isCanonicalDecimal_def FormatInt_def)
qed

lemma Unmarshal_int64_error_keeps:
  "Unmarshal_int64 data r0 = (r, Some e) \<Longrightarrow> r = r0"
  by (auto simp: Unmarshal_int64_def split: option.splits if_splits prod.splits list.splits)

lemma UnmarshalJSON_keeps_invalidIsZero:
  assumes z: "Int8 i = 0"
    and nr: "\<forall>s. snd (UnmarshalJSON i data) \<noteq> Some (NumError s ErrRange)"
  shows "invalidIsZero (fst (UnmarshalJSON i data))"
proof (cases "data = NullBytes")
  case True
  then show ?thesis by (simp add: UnmarshalJSON_def invalidIsZero_def)
next
  case nn: False
  show ?thesis
  proof (cases "Unmarshal_interface data")
    case (Inl e)
    then show ?thesis using nn z by (simp add: UnmarshalJSON_def invalidIsZero_def)
  next
    case (Inr v)
    have fall: "invalidIsZero (fst (UnmarshalJSON i data))"
      if ts: "typeSwitch i data v = Fallthrough r err" and ok: "err \<noteq> None \<Longrightarrow> r = 0" for r err
    proof (cases "MaxInt8 < sint r")
      case True
      then show ?thesis using nn Inr ts z by (simp add: UnmarshalJSON_def invalidIsZero_def)
    next
      case False
      then show ?thesis using nn Inr ts ok
        by (cases "err = None") (auto simp: UnmarshalJSON_def invalidIsZero_def Let_def)
    qed
    show ?thesis
    proof (cases v)
      case DynNil
      then show ?thesis using nn Inr z by (simp add: UnmarshalJSON_def invalidIsZero_def)
    next
      case (DynBool b)
      then show ?thesis by (intro fall [of 0]) simp_all
    next
      case DynSlice
      then show ?thesis by (intro fall [of 0]) simp_all
    next
      case DynMap
      then show ?thesis by (intro fall [of 0]) simp_all
    next
      case DynFloat64
      obtain r err where u: "Unmarshal_int64 data 0 = (r, err)" by (cases "Unmarshal_int64 data 0")
      have "err \<noteq> None \<Longrightarrow> r = 0" using Unmarshal_int64_error_keeps [of data 0 r] u by auto
      then show ?thesis using DynFloat64 u by (intro fall [of r err]) simp_all
    next
      case (DynString str)
      show ?thesis
      proof (cases "str = []")
        case True
        then show ?thesis using nn Inr DynString z by (simp add: UnmarshalJSON_def invalidIsZero_def)
      next
        case False
        obtain r err where p: "ParseInt str 8 = (r, err)" by (cases "ParseInt str 8")
        have ts: "typeSwitch i data v = Fallthrough r err" using DynString False p by simp
        have le: "\<not> MaxInt8 < sint r" using ParseInt_8_le [of str] p by (simp add: MaxInt8_def)
        have res: "snd (UnmarshalJSON i data) = err"
          using nn Inr ts le by (simp add: UnmarshalJSON_def Let_def)
        have "err \<noteq> None \<Longrightarrow> r = 0"
          using ParseInt_8_cases [of str] p nr res by auto
        then show ?thesis using ts by (intro fall [of r err]) simp_all
      qed
    qed
  qed
qed

lemma UnmarshalText_keeps_invalidIsZero:
  "Int8 i = 0 \<Longrightarrow> invalidIsZero (fst (UnmarshalText i text))"
  by (cases "ParseInt text 8") (auto simp: UnmarshalText_def invalidIsZero_def Let_def)

section \<open>The claims\<close>

text \<open>
  C1. For every \<open>v\<close> in [-128,127], that is for every \<open>int8\<close>, decoding the JSON encoding
  of \<open>Int8From v\<close> gives \<open>Int8From v\<close> again when \<open>v\<close> is not 0, and a result with
  \<open>Valid = False\<close> when \<open>v\<close> is 0; in both cases without error and whatever the receiver
  held before.
\<close>

theorem json_round_trip:
  "UnmarshalJSON i (fst (MarshalJSON (Int8From v))) =
     (if v \<noteq> 0 then (Int8From v, None) else (\<lparr>Int8 = 0, Valid = False\<rparr>, None))"
  using int8_sint_le [of v]
  by (simp add: MarshalJSON_def Int8From_def NewInt8_def UnmarshalJSON_FormatInt sint_widen narrow_widen)

theorem json_round_trip_witness:
  "UnmarshalJSON \<lparr>Int8 = 0, Valid = False\<rparr> ''-128'' = (\<lparr>Int8 = - 128, Valid = True\<rparr>, None)
   \<and> fst (MarshalJSON (Int8From (- 128))) = ''-128''
   \<and> UnmarshalJSON \<lparr>Int8 = 3, Valid = True\<rparr> ''0'' = (\<lparr>Int8 = 0, Valid = False\<rparr>, None)
   \<and> fst (MarshalJSON (Int8From 0)) = ''0''"
  using json_round_trip [of "\<lparr>Int8 = 0, Valid = False\<rparr>" "- 128"]
    json_round_trip [of "\<lparr>Int8 = 3, Valid = True\<rparr>" 0]
  by (simp add: MarshalJSON_def Int8From_def NewInt8_def FormatInt_m128 FormatInt_0)

text \<open>
  C2, as the claim states it, fails: \<open>NewInt8 5 False\<close> is an invalid instance holding 5,
  and both the empty JSON string and the empty text set \<open>Valid\<close> to false and leave the
  value 5 of the receiver in place.
\<close>

theorem stale_value_when_invalid:
  "\<not> invalidIsZero (NewInt8 5 False) \<and> NewInt8 5 False = \<lparr>Int8 = 5, Valid = False\<rparr>
   \<and> \<not> invalidIsZero (fst (UnmarshalJSON \<lparr>Int8 = 5, Valid = True\<rparr> [CHR 0x22, CHR 0x22]))
   \<and> UnmarshalJSON \<lparr>Int8 = 5, Valid = True\<rparr> [CHR 0x22, CHR 0x22] = (\<lparr>Int8 = 5, Valid = False\<rparr>, None)
   \<and> UnmarshalText \<lparr>Int8 = 5, Valid = True\<rparr> [] = (\<lparr>Int8 = 5, Valid = False\<rparr>, None)"
  by (simp add: NewInt8_def UnmarshalJSON_def NullBytes_def Unmarshal_interface_empty_string
      UnmarshalText_def invalidIsZero_def)

text \<open>
  C2, amended. An invalid instance holds 0 when it comes out of \<open>Int8From\<close>,
  \<open>Int8FromPtr\<close>, \<open>SetValid\<close>, \<open>Scan\<close>, \<open>Randomize\<close> or the JSON decoding of the null
  literal. JSON and text decoding into a receiver whose value is 0 give an instance that
  is valid or holds 0, for JSON decoding unless it returns strconv's range error (a quoted
  number out of range). \<open>NewInt8\<close> stores its two arguments as they are.
\<close>

theorem invalid_is_zero_where_enforced:
  "invalidIsZero (Int8From v) \<and> invalidIsZero (Int8FromPtr p) \<and> invalidIsZero (SetValid i n)
   \<and> invalidIsZero (fst (Scan ca i x)) \<and> invalidIsZero (Randomize i nextInt shouldBeNull)
   \<and> invalidIsZero (fst (UnmarshalJSON i NullBytes))
   \<and> (Int8 i = 0 \<and> (\<forall>s. snd (UnmarshalJSON i data) \<noteq> Some (NumError s ErrRange)) \<longrightarrow>
        invalidIsZero (fst (UnmarshalJSON i data)))
   \<and> (Int8 i = 0 \<longrightarrow> invalidIsZero (fst (UnmarshalText i input)))
   \<and> NewInt8 v valid = \<lparr>Int8 = v, Valid = valid\<rparr>"
proof -
  have "invalidIsZero (fst (Scan ca i x))"
    by (cases x; cases "ca (the x) (Int8 i)") (simp_all add: Scan_def invalidIsZero_def)
  moreover have "invalidIsZero (Int8FromPtr p)"
    by (cases p) (simp_all add: Int8FromPtr_def NewInt8_def invalidIsZero_def)
  moreover have "invalidIsZero (fst (UnmarshalJSON i NullBytes))"
    by (simp add: UnmarshalJSON_def invalidIsZero_def)
  ultimately show ?thesis
    using UnmarshalJSON_keeps_invalidIsZero [of i data] UnmarshalText_keeps_invalidIsZero [of i input]
    by (simp add: Int8From_def NewInt8_def SetValid_def Randomize_def invalidIsZero_def)
qed

theorem invalid_is_zero_where_enforced_witness:
  "invalidIsZero (fst (UnmarshalJSON \<lparr>Int8 = 0, Valid = False\<rparr> ''0''))
   \<and> invalidIsZero (fst (UnmarshalText \<lparr>Int8 = 0, Valid = False\<rparr> ''abc''))
   \<and> invalidIsZero (Int8FromPtr None) \<and> NewInt8 5 False = \<lparr>Int8 = 5, Valid = False\<rparr>"
  using invalid_is_zero_where_enforced [where p = None and i = "\<lparr>Int8 = 0, Valid = False\<rparr>"
      and data = "''0''" and input = "''abc''" and v = 5 and valid = False and n = 0
      and ca = "\<lambda>x n. (n, Some ())" and x = "Some True" and nextInt = 0 and shouldBeNull = True]
  by (simp add: UnmarshalJSON_0)

text \<open>
  C3. Whenever the type switch of \<open>UnmarshalJSON\<close> falls through with a candidate \<open>r\<close>
  above 127, \<open>UnmarshalJSON\<close> returns the overflow error carrying \<open>r\<close> and the receiver is
  as it was before the call. This is what happens for the decimal text of every \<open>int64\<close>
  above 127.
\<close>

theorem overflow_leaves_receiver:
  "(data \<noteq> NullBytes \<and> Unmarshal_interface data = Inr v
      \<and> typeSwitch i data v = Fallthrough r err \<and> 127 < sint r \<longrightarrow>
      UnmarshalJSON i data = (i, Some (OverflowError r)))
   \<and> (127 < sint w \<longrightarrow> UnmarshalJSON i (FormatInt w) = (i, Some (OverflowError w)))"
proof (intro conjI impI)
  assume "data \<noteq> NullBytes \<and> Unmarshal_interface data = Inr v
      \<and> typeSwitch i data v = Fallthrough r err \<and> 127 < sint r"
  then show "UnmarshalJSON i data = (i, Some (OverflowError r))"
    by (simp add: UnmarshalJSON_def MaxInt8_def)
next
  assume "127 < sint w"
  then show "UnmarshalJSON i (FormatInt w) = (i, Some (OverflowError w))"
    by (simp add: UnmarshalJSON_FormatInt)
qed

theorem overflow_leaves_receiver_witness:
  "UnmarshalJSON \<lparr>Int8 = 5, Valid = True\<rparr> ''128'' = (\<lparr>Int8 = 5, Valid = True\<rparr>, Some (OverflowError 128))
   \<and> typeSwitch \<lparr>Int8 = 5, Valid = True\<rparr> ''128'' DynFloat64 = Fallthrough 128 None"
proof -
  obtain ds where sh: "FormatInt 128 = ds \<or> FormatInt 128 = CHR ''-'' # ds" "ds \<noteq> []"
    "list_all isDigit ds" "hd ds = CHR ''0'' \<longrightarrow> ds = ''0''" "readDigits ds < 2 ^ 64"
    by (rule FormatInt_shape)
  have a: "Unmarshal_interface ''128'' = Inr DynFloat64"
    using Unmarshal_interface_int_literal [OF sh] by (simp add: FormatInt_128)
  have b: "Unmarshal_int64 ''128'' 0 = (128, None)"
    using Unmarshal_int64_int_literal [OF sh(1-4), of 0] ParseInt_FormatInt [of 128]
    by (simp add: FormatInt_128)
  have c: "typeSwitch \<lparr>Int8 = 5, Valid = True\<rparr> ''128'' DynFloat64 = Fallthrough 128 None"
    by (simp add: b)
  show ?thesis
    using overflow_leaves_receiver [of "''128''" DynFloat64 "\<lparr>Int8 = 5, Valid = True\<rparr>" 128 None 128] a c
    by (simp add: NullBytes_def)
qed

text \<open>
  C4, as the claim states it, fails: the bare number -256 is below the least \<open>int8\<close> and
  fits an \<open>int64\<close>; it is decoded without error, but its truncation is 0 and the result is
  not valid.
\<close>

theorem below_minimum_may_end_invalid:
  "UnmarshalJSON \<lparr>Int8 = 5, Valid = True\<rparr> ''-256'' = (\<lparr>Int8 = 0, Valid = False\<rparr>, None)"
  using UnmarshalJSON_FormatInt [of "\<lparr>Int8 = 5, Valid = True\<rparr>" "- 256"] by (simp add: FormatInt_m256)

text \<open>
  C4, amended. For every \<open>int64\<close> below -128, decoding its decimal text returns no error
  and stores the low eight bits of the number; the result is valid exactly when these
  eight bits are not 0. For -129 the stored value is 127 and the result is valid.
\<close>

theorem below_minimum_is_truncated:
  "sint w < - 128 \<Longrightarrow>
   UnmarshalJSON i (FormatInt w) = (\<lparr>Int8 = ucast w, Valid = ((ucast w :: int8) \<noteq> 0)\<rparr>, None)
   \<and> isCanonicalDecimal (FormatInt w) \<and> decimalValue (FormatInt w) = sint w"
  by (simp add: UnmarshalJSON_FormatInt FormatInt_canonical FormatInt_decimal)

theorem below_minimum_is_truncated_witness:
  "UnmarshalJSON \<lparr>Int8 = 5, Valid = False\<rparr> ''-129'' = (\<lparr>Int8 = 127, Valid = True\<rparr>, None)"
  using below_minimum_is_truncated [of "- 129" "\<lparr>Int8 = 5, Valid = False\<rparr>"] by (simp add: FormatInt_m129)

text \<open>
  C5. Decoding exactly the bytes \<open>null\<close> sets \<open>Valid\<close> to false and the value to 0 and
  returns no error; decoding the empty JSON string (two quotation marks) sets \<open>Valid\<close> to
  false, leaves the value as it was and returns no error.
\<close>

theorem absent_encodings_are_no_errors:
  "UnmarshalJSON i ''null'' = (\<lparr>Int8 = 0, Valid = False\<rparr>, None)
   \<and> UnmarshalJSON i [CHR 0x22, CHR 0x22] = (i\<lparr>Valid := False\<rparr>, None)"
  by (cases i) (simp add: UnmarshalJSON_def NullBytes_def Unmarshal_interface_empty_string)

theorem absent_encodings_are_no_errors_witness:
  "UnmarshalJSON \<lparr>Int8 = 7, Valid = True\<rparr> ''null'' = (\<lparr>Int8 = 0, Valid = False\<rparr>, None)
   \<and> UnmarshalJSON \<lparr>Int8 = 7, Valid = True\<rparr> [CHR 0x22, CHR 0x22] = (\<lparr>Int8 = 7, Valid = False\<rparr>, None)"
  using absent_encodings_are_no_errors [of "\<lparr>Int8 = 7, Valid = True\<rparr>"] by simp

text \<open>
  C6. The JSON documents \<open>[]\<close> and \<open>{}\<close> are decoded with an error, as the claim says,
  but the error does not tell the kind: the name that \<open>reflect\<close> gives for the slice and
  the map type is empty, so both documents end with the same error, whose text has a gap
  where the kind should stand. Only for a boolean is the kind named.
\<close>

theorem kind_error_names_no_kind:
  "UnmarshalJSON i ''[]'' = (\<lparr>Int8 = 0, Valid = False\<rparr>, Some (KindError []))
   \<and> UnmarshalJSON i ''{}'' = (\<lparr>Int8 = 0, Valid = False\<rparr>, Some (KindError []))
   \<and> UnmarshalJSON i ''true'' = (\<lparr>Int8 = 0, Valid = False\<rparr>, Some (KindError ''bool''))
   \<and> kindErrorText [] = ''json: cannot unmarshal  into Go value of type null.Int8''"
  by (cases i) (simp add: UnmarshalJSON_def NullBytes_def Unmarshal_interface_empty_array
      Unmarshal_interface_empty_object Unmarshal_interface_true MaxInt8_def kindErrorText_def)

text \<open>
  C7. \<open>UnmarshalText\<close> of the empty input sets \<open>Valid\<close> to false, returns no error and
  leaves the value as it was. Of an input that is a decimal text of an integer between
  -128 and 127 it sets the value to that integer and \<open>Valid\<close> to true, without error. Of
  every other input that is not empty it sets \<open>Valid\<close> to false, leaves the value as it
  was and returns the error of \<open>ParseInt\<close>.
\<close>

theorem unmarshal_text_contract:
  "UnmarshalText i [] = (i\<lparr>Valid := False\<rparr>, None)
   \<and> (text \<noteq> [] \<and> isDecimal text \<and> - 128 \<le> decimalValue text \<and> decimalValue text \<le> 127 \<longrightarrow>
        UnmarshalText i text = (\<lparr>Int8 = word_of_int (decimalValue text), Valid = True\<rparr>, None))
   \<and> (text \<noteq> [] \<and> \<not> (isDecimal text \<and> - 128 \<le> decimalValue text \<and> decimalValue text \<le> 127) \<longrightarrow>
        (\<exists>k. UnmarshalText i text = (i\<lparr>Valid := False\<rparr>, Some (NumError text k))
             \<and> snd (ParseInt text 8) = Some (NumError text k)))"
  using ParseInt_8_cases [of "text"]
  by (cases i) (auto simp: UnmarshalText_def narrow_of_int)

theorem unmarshal_text_contract_witness:
  "UnmarshalText \<lparr>Int8 = 7, Valid = True\<rparr> [] = (\<lparr>Int8 = 7, Valid = False\<rparr>, None)
   \<and> UnmarshalText \<lparr>Int8 = 7, Valid = False\<rparr> ''42'' = (\<lparr>Int8 = 42, Valid = True\<rparr>, None)
   \<and> UnmarshalText \<lparr>Int8 = 7, Valid = True\<rparr> ''abc'' = (\<lparr>Int8 = 7, Valid = False\<rparr>, Some (NumError ''abc'' ErrSyntax))
   \<and> UnmarshalText \<lparr>Int8 = 7, Valid = True\<rparr> ''128'' = (\<lparr>Int8 = 7, Valid = False\<rparr>, Some (NumError ''128'' ErrRange))"
  using unmarshal_text_contract [of "\<lparr>Int8 = 7, Valid = True\<rparr>" "''abc''"]
    unmarshal_text_contract [of "\<lparr>Int8 = 7, Valid = False\<rparr>" "''42''"]
    unmarshal_text_contract [of "\<lparr>Int8 = 7, Valid = True\<rparr>" "''128''"]
  by (simp add: isDecimal_def decimalValue_def readDigits_def isDigit_def digitVal_def byte_def
      ParseInt_abc ParseInt_128)

text \<open>
  C8. \<open>MarshalJSON\<close> of an invalid instance is the bytes \<open>null\<close> and \<open>MarshalText\<close> of it
  is empty, whatever value is stored; of a valid instance both are the decimal
  representation of the stored value, without quotation marks. Neither returns an error.
\<close>

theorem marshal_contract:
  "(\<not> Valid i \<longrightarrow> MarshalJSON i = (''null'', None) \<and> MarshalText i = ([], None))
   \<and> (Valid i \<longrightarrow>
        (\<exists>s. MarshalJSON i = (s, None) \<and> MarshalText i = (s, None)
             \<and> isCanonicalDecimal s \<and> decimalValue s = sint (Int8 i)))
   \<and> snd (MarshalJSON i) = None \<and> snd (MarshalText i) = None"
  by (simp add: MarshalJSON_def MarshalText_def NullBytes_def FormatInt_canonical
      FormatInt_decimal sint_widen)

theorem marshal_contract_witness:
  "MarshalJSON (NewInt8 5 False) = (''null'', None) \<and> MarshalText (NewInt8 5 False) = ([], None)
   \<and> MarshalJSON (NewInt8 42 True) = (''42'', None) \<and> MarshalText (NewInt8 42 True) = (''42'', None)
   \<and> isCanonicalDecimal ''42'' \<and> decimalValue ''42'' = 42"
  using marshal_contract [of "NewInt8 5 False"] marshal_contract [of "NewInt8 42 True"]
  by (simp add: NewInt8_def MarshalJSON_def MarshalText_def FormatInt_42)

text \<open>
  C9. \<open>Scan\<close> of a nil driver value sets the value to 0 and \<open>Valid\<close> to false and returns
  no error, whatever the coercion helper is. \<open>Value\<close> of an invalid instance is the nil
  driver value; of a valid instance it is an \<open>int64\<close> that reads as the same integer as
  the stored \<open>int8\<close>; \<open>Value\<close> never returns an error.
\<close>

theorem scan_nil_and_value:
  "Scan ca i None = (\<lparr>Int8 = 0, Valid = False\<rparr>, None)
   \<and> (\<not> Valid i \<longrightarrow> Value i = (None, None))
   \<and> (Valid i \<longrightarrow> (\<exists>n. Value i = (Some n, None) \<and> sint n = sint (Int8 i)))
   \<and> snd (Value i) = None"
  by (simp add: Scan_def Value_def sint_widen)

theorem scan_nil_and_value_witness:
  "Scan (\<lambda>x n. (n, Some ())) (Int8From 9) (None :: bool option) = (\<lparr>Int8 = 0, Valid = False\<rparr>, None)
   \<and> Value (NewInt8 9 False) = (None, None)
   \<and> Value (Int8From 9) = (Some 9, None)"
  using scan_nil_and_value [of "\<lambda>x n. (n, Some ())" "Int8From 9"]
    scan_nil_and_value [of "\<lambda>x n. (n, Some ())" "NewInt8 9 False"]
  by (simp add: Int8From_def NewInt8_def Value_def)

text \<open>
  C10. \<open>Scan\<close> of a driver value that is not nil sets \<open>Valid\<close> to true and then calls the
  coercion helper; when the helper fails, \<open>Scan\<close> returns the helper's error and the
  receiver is left with \<open>Valid = True\<close> and with whatever the helper wrote into the value.
\<close>

theorem scan_failure_keeps_valid:
  "snd (ca x (Int8 i)) = Some e \<Longrightarrow>
   snd (Scan ca i (Some x)) = Some e \<and> Valid (fst (Scan ca i (Some x)))
   \<and> Int8 (fst (Scan ca i (Some x))) = fst (ca x (Int8 i))"
  by (cases "ca x (Int8 i)") (simp add: Scan_def)

theorem scan_failure_keeps_valid_witness:
  "Scan (\<lambda>x n. (n, Some ''unsupported'')) (NewInt8 3 False) (Some True)
     = (\<lparr>Int8 = 3, Valid = True\<rparr>, Some ''unsupported'')"
  using scan_failure_keeps_valid [of "\<lambda>x n. (n, Some ''unsupported'')" True "NewInt8 3 False" "''unsupported''"]
  by (simp add: NewInt8_def Scan_def)

end
